theory Spec2Isabelle
  imports Main "HOL-Library.AList" "HOL-Library.Multiset"
begin

section \<open>Data model (shared/schema.ts, client/src/lib/types.ts)\<close>

text \<open>
  Identifiers are JavaScript numbers holding integers; the counters of the store start at
  1 and only ever grow by one, so they are modelled as unbounded \<open>int\<close> (a double is
  exact on this range up to \<open>2^53\<close>). A request may carry any number as an identifier;
  a number that is no integer is never a key of the store and behaves like any other
  absent identifier. A \<open>Date\<close> is its \<open>getTime()\<close> value, an \<open>int\<close> of
  milliseconds. Strings are compared, tested for emptiness and concatenated only.
\<close>

type_synonym date = int

record insertUser =
  u_username :: string
  u_password :: string

record user = insertUser +
  u_id :: int

record insertDocument =
  d_name :: string
  d_originalName :: string
  d_mimeType :: string
  d_size :: nat
  d_content :: string

record document = insertDocument +
  d_id :: int
  d_uploadedAt :: date

record insertSession =
  s_documentId :: int
  s_name :: string

record session = insertSession +
  s_id :: int
  s_createdAt :: date
  s_lastMessageAt :: date

text \<open>The field \<open>documentId\<close> of a message holds the identifier of its session.\<close>

record insertMessage =
  m_documentId :: int
  m_role :: string
  m_content :: string

record message = insertMessage +
  m_id :: int
  m_timestamp :: date

section \<open>The JavaScript Map\<close>

text \<open>
  A \<open>Map\<close> is an association list in insertion order with distinct keys: \<open>set\<close> on a
  key that is present replaces the value in place, on a new key it appends the entry;
  \<open>delete\<close> removes the entry and tells whether there was one; \<open>values()\<close> lists the
  values in insertion order.
\<close>

type_synonym ('k, 'v) js_map = "('k \<times> 'v) list"

definition Map_get :: "('k, 'v) js_map \<Rightarrow> 'k \<Rightarrow> 'v option" where
  "Map_get m k = map_of m k"

definition Map_set :: "'k \<Rightarrow> 'v \<Rightarrow> ('k, 'v) js_map \<Rightarrow> ('k, 'v) js_map" where
  "Map_set k v m = AList.update k v m"

definition Map_delete :: "'k \<Rightarrow> ('k, 'v) js_map \<Rightarrow> bool \<times> ('k, 'v) js_map" where
  "Map_delete k m = (k \<in> set (map fst m), AList.delete k m)"

definition Map_values :: "('k, 'v) js_map \<Rightarrow> 'v list" where
  "Map_values m = map snd m"

text \<open>
  \<open>Array.prototype.sort\<close> is stable. With the comparator \<open>key a - key b\<close> it is the
  stable insertion sort \<open>sort_key key\<close>.
\<close>

section \<open>MemStorage (server/storage.ts)\<close>

record memStorage =
  users :: "(int, user) js_map"
  documents :: "(int, document) js_map"
  sessions :: "(int, session) js_map"
  messages :: "(int, message) js_map"
  userIdCounter :: int
  documentIdCounter :: int
  sessionIdCounter :: int
  messageIdCounter :: int

definition constructor :: memStorage where
  "constructor =
     \<lparr>users = [], documents = [], sessions = [], messages = [],
      userIdCounter = 1, documentIdCounter = 1, sessionIdCounter = 1,
      messageIdCounter = 1\<rparr>"

text \<open>
  Every operation takes the store and returns its result with the updated store. Each
  evaluation of \<open>new Date()\<close> is an argument of the operation, in the order of the calls.
\<close>

definition getUser :: "int \<Rightarrow> memStorage \<Rightarrow> user option" where
  "getUser i st = Map_get (users st) i"

definition createUser :: "insertUser \<Rightarrow> memStorage \<Rightarrow> user \<times> memStorage" where
  "createUser ins st =
     (let i = userIdCounter st;
          st1 = st\<lparr>userIdCounter := userIdCounter st + 1\<rparr>;
          u = \<lparr>u_username = u_username ins, u_password = u_password ins, u_id = i\<rparr>
      in (u, st1\<lparr>users := Map_set i u (users st1)\<rparr>))"

definition getDocument :: "int \<Rightarrow> memStorage \<Rightarrow> document option" where
  "getDocument i st = Map_get (documents st) i"

definition createDocument :: "insertDocument \<Rightarrow> date \<Rightarrow> memStorage \<Rightarrow> document \<times> memStorage" where
  "createDocument ins now st =
     (let i = documentIdCounter st;
          st1 = st\<lparr>documentIdCounter := documentIdCounter st + 1\<rparr>;
          d = \<lparr>d_name = d_name ins, d_originalName = d_originalName ins,
               d_mimeType = d_mimeType ins, d_size = d_size ins, d_content = d_content ins,
               d_id = i, d_uploadedAt = now\<rparr>
      in (d, st1\<lparr>documents := Map_set i d (documents st1)\<rparr>))"

definition deleteDocument :: "int \<Rightarrow> memStorage \<Rightarrow> bool \<times> memStorage" where
  "deleteDocument i st =
     (let (existed, ds) = Map_delete i (documents st)
      in (existed, st\<lparr>documents := ds\<rparr>))"

definition getSession :: "int \<Rightarrow> memStorage \<Rightarrow> session option" where
  "getSession i st = Map_get (sessions st) i"

definition createSession :: "insertSession \<Rightarrow> date \<Rightarrow> memStorage \<Rightarrow> session \<times> memStorage" where
  "createSession ins now st =
     (let i = sessionIdCounter st;
          st1 = st\<lparr>sessionIdCounter := sessionIdCounter st + 1\<rparr>;
          s = \<lparr>s_documentId = s_documentId ins, s_name = s_name ins,
               s_id = i, s_createdAt = now, s_lastMessageAt = now\<rparr>
      in (s, st1\<lparr>sessions := Map_set i s (sessions st1)\<rparr>))"

definition updateSessionName :: "int \<Rightarrow> string \<Rightarrow> memStorage \<Rightarrow> session option \<times> memStorage" where
  "updateSessionName i name st =
     (case Map_get (sessions st) i of
        None \<Rightarrow> (None, st)
      | Some s \<Rightarrow>
          (let updatedSession = s\<lparr>s_name := name\<rparr>
           in (Some updatedSession, st\<lparr>sessions := Map_set i updatedSession (sessions st)\<rparr>)))"

definition getMessages :: "int \<Rightarrow> memStorage \<Rightarrow> message list" where
  "getMessages sessionId st =
     sort_key m_timestamp (filter (\<lambda>m. m_documentId m = sessionId) (Map_values (messages st)))"

text \<open>
  \<open>createMessage\<close> reads the clock twice: \<open>t\<close> stamps the message, \<open>t'\<close> becomes the
  session's \<open>lastMessageAt\<close>. The session is searched among the values by its \<open>id\<close>
  field and written back under that field.
\<close>

definition createMessage :: "insertMessage \<Rightarrow> date \<Rightarrow> date \<Rightarrow> memStorage \<Rightarrow> message \<times> memStorage" where
  "createMessage ins t t' st =
     (let i = messageIdCounter st;
          st1 = st\<lparr>messageIdCounter := messageIdCounter st + 1\<rparr>;
          m = \<lparr>m_documentId = m_documentId ins, m_role = m_role ins,
               m_content = m_content ins, m_id = i, m_timestamp = t\<rparr>;
          st2 = st1\<lparr>messages := Map_set i m (messages st1)\<rparr>
      in (case find (\<lambda>s. s_id s = m_documentId ins) (Map_values (sessions st2)) of
            None \<Rightarrow> (m, st2)
          | Some s \<Rightarrow>
              (let updatedSession = s\<lparr>s_lastMessageAt := t'\<rparr>
               in (m, st2\<lparr>sessions := Map_set (s_id s) updatedSession (sessions st2)\<rparr>))))"

section \<open>External collaborators\<close>

text \<open>
  The Completion Client (\<open>groqChatCompletion\<close>) is a parameter \<open>groq\<close>: it maps the list
  of role-tagged messages it is sent to its reply, \<open>Inl\<close> carrying the message of the
  error it throws. Each handler returns, next to the response and the store, the list of
  calls it made to the client.

  The host of the upload path (Node's \<open>path\<close> and \<open>fs\<close>, the text decoder and the two
  extraction libraries) is a record of what each call yields.
\<close>

type_synonym groq_message = "string \<times> string"

type_synonym completion_client = "groq_message list \<Rightarrow> string + string"

record host =
  path_extname :: "string \<Rightarrow> string"
  toLowerCase :: "string \<Rightarrow> string"
  fs_writeFile_ok :: bool
  fs_readFile_ok :: bool
  fs_unlink_ok :: bool
  utf8 :: "nat list \<Rightarrow> string"
  pdf_parse_lib :: "nat list \<Rightarrow> string option"
  mammoth_extractRawText :: "nat list \<Rightarrow> string option"

record multerFile =
  originalname :: string
  mimetype :: string
  f_size :: nat
  buffer :: "nat list"

section \<open>Text extraction (server/utils/fileProcessing.ts)\<close>

definition pdfParse :: "host \<Rightarrow> nat list \<Rightarrow> string" where
  "pdfParse h dataBuffer =
     (case pdf_parse_lib h dataBuffer of
        Some text \<Rightarrow> text
      | None \<Rightarrow> ''Failed to parse PDF content. Please try another file.'')"

text \<open>
  Whatever is thrown inside \<open>processFile\<close> reaches the outer \<open>catch\<close>, which throws
  \<open>Error('Failed to process file')\<close>: the result is \<open>Inl\<close> of that message.
\<close>

definition processFile :: "host \<Rightarrow> multerFile \<Rightarrow> string + string" where
  "processFile h file =
     (if \<not> fs_writeFile_ok h then Inl ''Failed to process file''
      else
        (let fileType = mimetype file;
             extracted =
               (if fileType = ''application/pdf'' then
                  (if fs_readFile_ok h then Some (pdfParse h (buffer file)) else None)
                else if fileType = ''application/msword'' \<or>
                        fileType = ''application/vnd.openxmlformats-officedocument.wordprocessingml.document'' then
                  mammoth_extractRawText h (buffer file)
                else if fileType = ''text/plain'' then
                  (if fs_readFile_ok h then Some (utf8 h (buffer file)) else None)
                else None)
         in (case extracted of
               None \<Rightarrow> Inl ''Failed to process file''
             | Some content \<Rightarrow>
                 if fs_unlink_ok h then Inr content else Inl ''Failed to process file'')))"

section \<open>Routes (registerRoutes)\<close>

definition validFileTypes :: "string list" where
  "validFileTypes =
     [''application/pdf'', ''application/msword'',
      ''application/vnd.openxmlformats-officedocument.wordprocessingml.document'',
      ''text/plain'']"

definition fileSizeLimit :: nat where
  "fileSizeLimit = 10 * 1024 * 1024"

definition fileFilter :: "host \<Rightarrow> multerFile \<Rightarrow> bool" where
  "fileFilter h file =
     (let fileExtension = toLowerCase h (path_extname h (originalname file));
          mimeType = mimetype file
      in (fileExtension = ''.pdf'' \<and> mimeType = ''application/pdf'') \<or>
         (fileExtension \<in> set [''.doc'', ''.docx''] \<and>
          mimeType \<in> set [''application/msword'',
            ''application/vnd.openxmlformats-officedocument.wordprocessingml.document'']) \<or>
         (fileExtension = ''.txt'' \<and> mimeType = ''text/plain''))"

datatype upload_response =
    UploadRejected string
  | Upload400 string
  | Upload500 string
  | Upload201 document session

definition greeting :: "string \<Rightarrow> string" where
  "greeting name =
     ''I've processed your '' @ name @ '' document. What would you like to know about it?''"

definition sessionName :: "string \<Rightarrow> string" where
  "sessionName name = ''Chat about '' @ name"

text \<open>The handler of \<open>POST /api/documents/upload\<close>, after the upload middleware.\<close>

definition uploadHandler ::
  "host \<Rightarrow> (nat \<Rightarrow> date) \<Rightarrow> multerFile option \<Rightarrow> memStorage \<Rightarrow> upload_response \<times> memStorage" where
  "uploadHandler h clk reqFile st =
     (case reqFile of
        None \<Rightarrow> (Upload400 ''No file uploaded'', st)
      | Some file \<Rightarrow>
          if mimetype file \<notin> set validFileTypes then
            (Upload400 ''Invalid file format. Please upload only PDF, DOC, or TXT files.'', st)
          else
            (case processFile h file of
               Inl err \<Rightarrow> (Upload500 err, st)
             | Inr content \<Rightarrow>
                 if content = [] then (Upload400 ''Failed to process file'', st)
                 else
                   (let (document, st1) =
                          createDocument
                            \<lparr>d_name = originalname file, d_originalName = originalname file,
                             d_mimeType = mimetype file, d_size = f_size file,
                             d_content = content\<rparr> (clk 0) st;
                        (session, st2) =
                          createSession
                            \<lparr>s_documentId = d_id document,
                             s_name = sessionName (d_name document)\<rparr> (clk 1) st1;
                        (systemMessage, st3) =
                          createMessage
                            \<lparr>m_documentId = s_id session, m_role = ''system'',
                             m_content = greeting (d_name document)\<rparr> (clk 2) (clk 3) st2
                    in (Upload201 document session, st3))))"

text \<open>
  \<open>upload.single('file')\<close> with the configured \<open>fileFilter\<close> and size limit: a file the
  filter refuses, or whose size reaches the limit of 10485760 bytes, never reaches the
  handler.
\<close>

definition postUpload ::
  "host \<Rightarrow> (nat \<Rightarrow> date) \<Rightarrow> multerFile option \<Rightarrow> memStorage \<Rightarrow> upload_response \<times> memStorage" where
  "postUpload h clk part st =
     (case part of
        None \<Rightarrow> uploadHandler h clk None st
      | Some file \<Rightarrow>
          if \<not> fileFilter h file then
            (UploadRejected ''Invalid file format. Please upload only PDF, DOC, or TXT files.'', st)
          else if fileSizeLimit \<le> f_size file then (UploadRejected ''File too large'', st)
          else uploadHandler h clk (Some file) st)"

record chatRequest =
  c_documentId :: int
  c_message :: string
  c_sessionId :: "int option"

datatype chat_response =
    Chat400
  | Chat404 string
  | Chat500 string
  | Chat200 session message message

definition systemPrompt :: "string \<Rightarrow> string" where
  "systemPrompt content =
     ''You're an AI assistant specialized in helping users analyze documents. Refer to the document content below when answering questions. If you can't find relevant information in the document, be honest about it.''
     @ [CHR 0x0A, CHR 0x0A] @ ''Document Content:'' @ [CHR 0x0A] @ content
     @ [CHR 0x0A, CHR 0x0A]
     @ ''Answer the question based on the document content. Be clear, concise, and helpful.''"

definition formattedMessages :: "document \<Rightarrow> message list \<Rightarrow> groq_message list" where
  "formattedMessages document sessionMessages =
     (''system'', systemPrompt (d_content document))
     # map (\<lambda>msg. (m_role msg, m_content msg)) sessionMessages"

text \<open>
  A request runs to its response without another request touching the store in between
  (the execution model of the specification): a handler is a function from the store
  before to the response and the store after.

  The part of \<open>POST /api/chat\<close> after the session is known; \<open>k\<close> is the number of clock
  readings the request has made so far.
\<close>

definition chatInSession ::
  "completion_client \<Rightarrow> (nat \<Rightarrow> date) \<Rightarrow> nat \<Rightarrow> document \<Rightarrow> string \<Rightarrow> session \<Rightarrow> memStorage
   \<Rightarrow> chat_response \<times> memStorage \<times> groq_message list list" where
  "chatInSession groq clk k document message session st =
     (let (userMessage, st1) =
            createMessage
              \<lparr>m_documentId = s_id session, m_role = ''user'', m_content = message\<rparr>
              (clk k) (clk (k + 1)) st;
          sessionMessages = getMessages (s_id session) st1;
          formatted = formattedMessages document sessionMessages
      in (case groq formatted of
            Inl err \<Rightarrow> (Chat500 err, st1, [formatted])
          | Inr responseContent \<Rightarrow>
              (let (aiMessage, st2) =
                     createMessage
                       \<lparr>m_documentId = s_id session, m_role = ''assistant'',
                        m_content = responseContent\<rparr>
                       (clk (k + 2)) (clk (k + 3)) st1
               in (Chat200 session userMessage aiMessage, st2, [formatted]))))"

text \<open>
  The body is \<open>None\<close> when \<open>chatSchema\<close> refuses it. \<open>if (sessionId)\<close> tests the
  truthiness of the number: an absent \<open>sessionId\<close> and the number 0 both take the
  \<open>else\<close> branch.
\<close>

definition handleChat ::
  "completion_client \<Rightarrow> (nat \<Rightarrow> date) \<Rightarrow> chatRequest option \<Rightarrow> memStorage
   \<Rightarrow> chat_response \<times> memStorage \<times> groq_message list list" where
  "handleChat groq clk body st =
     (case body of
        None \<Rightarrow> (Chat400, st, [])
      | Some req \<Rightarrow>
          (case getDocument (c_documentId req) st of
             None \<Rightarrow> (Chat404 ''Document not found'', st, [])
           | Some document \<Rightarrow>
               (let inNewSession =
                      (let (session, st1) =
                             createSession
                               \<lparr>s_documentId = c_documentId req,
                                s_name = sessionName (d_name document)\<rparr> (clk 0) st
                       in chatInSession groq clk 1 document (c_message req) session st1)
                in (case c_sessionId req of
                      None \<Rightarrow> inNewSession
                    | Some sessionId \<Rightarrow>
                        if sessionId = 0 then inNewSession
                        else
                          (case getSession sessionId st of
                             None \<Rightarrow> (Chat404 ''Session not found'', st, [])
                           | Some session \<Rightarrow>
                               chatInSession groq clk 0 document (c_message req) session st)))))"

section \<open>Store invariant, clock and runs\<close>

text \<open>
  In every store the program builds, each entry of a map is filed under its own \<open>id\<close>,
  the keys are distinct and positive, and every key is below the (positive) counter of
  its kind.
\<close>

definition entries_ok :: "('v \<Rightarrow> int) \<Rightarrow> int \<Rightarrow> (int, 'v) js_map \<Rightarrow> bool" where
  "entries_ok idf c m =
     (0 < c \<and> distinct (map fst m) \<and>
      (\<forall>p \<in> set m. idf (snd p) = fst p \<and> 0 < fst p \<and> fst p < c))"

definition wf :: "memStorage \<Rightarrow> bool" where
  "wf st =
     (entries_ok u_id (userIdCounter st) (users st) \<and>
      entries_ok d_id (documentIdCounter st) (documents st) \<and>
      entries_ok s_id (sessionIdCounter st) (sessions st) \<and>
      entries_ok m_id (messageIdCounter st) (messages st))"

text \<open>No time stored in the sessions and messages is later than \<open>t\<close>.\<close>

definition stamps_le :: "date \<Rightarrow> memStorage \<Rightarrow> bool" where
  "stamps_le t st =
     ((\<forall>s \<in> set (Map_values (sessions st)). s_lastMessageAt s \<le> t) \<and>
      (\<forall>m \<in> set (Map_values (messages st)). m_timestamp m \<le> t))"

text \<open>
  A run is a sequence of calls of the store's mutating methods, each with the clock
  readings it makes. It yields the identifiers it assigned, in order, with their kind.
\<close>

datatype kind = User | Document | Session | Message

datatype operation =
    CreateUser insertUser
  | CreateDocument insertDocument date
  | DeleteDocument int
  | CreateSession insertSession date
  | UpdateSessionName int string
  | CreateMessage insertMessage date date

fun apply_op :: "operation \<Rightarrow> memStorage \<Rightarrow> (kind \<times> int) list \<times> memStorage" where
  "apply_op (CreateUser ins) st = (let (u, st') = createUser ins st in ([(User, u_id u)], st'))"
| "apply_op (CreateDocument ins now) st =
     (let (d, st') = createDocument ins now st in ([(Document, d_id d)], st'))"
| "apply_op (DeleteDocument i) st = ([], snd (deleteDocument i st))"
| "apply_op (CreateSession ins now) st =
     (let (s, st') = createSession ins now st in ([(Session, s_id s)], st'))"
| "apply_op (UpdateSessionName i name) st = ([], snd (updateSessionName i name st))"
| "apply_op (CreateMessage ins t t') st =
     (let (m, st') = createMessage ins t t' st in ([(Message, m_id m)], st'))"

fun run :: "operation list \<Rightarrow> memStorage \<Rightarrow> (kind \<times> int) list \<times> memStorage" where
  "run [] st = ([], st)"
| "run (x # xs) st =
     (let (a, st1) = apply_op x st; (b, st2) = run xs st1 in (a @ b, st2))"

definition assigned :: "kind \<Rightarrow> (kind \<times> int) list \<Rightarrow> int list" where
  "assigned k tr = map snd (filter (\<lambda>p. fst p = k) tr)"

fun counter :: "kind \<Rightarrow> memStorage \<Rightarrow> int" where
  "counter User st = userIdCounter st"
| "counter Document st = documentIdCounter st"
| "counter Session st = sessionIdCounter st"
| "counter Message st = messageIdCounter st"

fun keys_of :: "kind \<Rightarrow> memStorage \<Rightarrow> int list" where
  "keys_of User st = map fst (users st)"
| "keys_of Document st = map fst (documents st)"
| "keys_of Session st = map fst (sessions st)"
| "keys_of Message st = map fst (messages st)"

fun readings :: "operation \<Rightarrow> date list" where
  "readings (CreateUser ins) = []"
| "readings (CreateDocument ins now) = [now]"
| "readings (DeleteDocument i) = []"
| "readings (CreateSession ins now) = [now]"
| "readings (UpdateSessionName i name) = []"
| "readings (CreateMessage ins t t') = [t, t']"

definition clock_of :: "operation list \<Rightarrow> date list" where
  "clock_of ops = concat (map readings ops)"

text \<open>The sessions map after \<open>createMessage\<close> for the session reference \<open>sid\<close>.\<close>

definition touch :: "int \<Rightarrow> date \<Rightarrow> (int, session) js_map \<Rightarrow> (int, session) js_map" where
  "touch sid t' m =
     (case Map_get m sid of
        None \<Rightarrow> m
      | Some s \<Rightarrow> Map_set sid (s\<lparr>s_lastMessageAt := t'\<rparr>) m)"

section \<open>A scenario\<close>

text \<open>
  The scenario of the specification: \<open>notes.txt\<close> with the content ``Hello world'' is
  uploaded to a fresh store, then a chat request asks ``What is this?''. The host decodes
  ASCII, takes the extension from the first dot on and has a working file system; one
  Completion Client always answers, the other always throws.
\<close>

definition notes_txt :: multerFile where
  "notes_txt =
     \<lparr>originalname = ''notes.txt'', mimetype = ''text/plain'', f_size = 11,
      buffer = [72, 101, 108, 108, 111, 32, 119, 111, 114, 108, 100]\<rparr>"

definition ascii_host :: host where
  "ascii_host =
     \<lparr>path_extname = (\<lambda>name. dropWhile (\<lambda>c. c \<noteq> CHR ''.'') name),
      toLowerCase = (\<lambda>x. x),
      fs_writeFile_ok = True, fs_readFile_ok = True, fs_unlink_ok = True,
      utf8 = map char_of,
      pdf_parse_lib = (\<lambda>bytes. None),
      mammoth_extractRawText = (\<lambda>bytes. None)\<rparr>"

definition upload_clock :: "nat \<Rightarrow> date" where
  "upload_clock k = 1000 + int k"

definition chat_clock :: "nat \<Rightarrow> date" where
  "chat_clock k = 2000 + int k"

definition canned_groq :: completion_client where
  "canned_groq msgs = Inr ''It is a greeting.''"

definition failing_groq :: completion_client where
  "failing_groq msgs = Inl ''GROQ_API_KEY environment variable is not set''"

definition uploaded :: memStorage where
  "uploaded = snd (postUpload ascii_host upload_clock (Some notes_txt) constructor)"

text \<open>
  Further inputs: a text file without content, a chat request for a document and a
  session, and the store after a second document has been created.
\<close>

definition empty_txt :: multerFile where
  "empty_txt = \<lparr>originalname = ''empty.txt'', mimetype = ''text/plain'', f_size = 0, buffer = []\<rparr>"

definition ask :: "int \<Rightarrow> int option \<Rightarrow> chatRequest" where
  "ask documentId sessionId =
     \<lparr>c_documentId = documentId, c_message = ''What is this?'', c_sessionId = sessionId\<rparr>"


section \<open>The Map operations and the invariant\<close>

lemma Map_set_fresh: "k \<notin> set (map fst m) \<Longrightarrow> Map_set k v m = m @ [(k, v)]"
  unfolding Map_set_def by (induction m) auto

lemma find_by_id:
  "entries_ok idf c m \<Longrightarrow> find (\<lambda>v. idf v = k) (Map_values m) = Map_get m k"
  unfolding entries_ok_def Map_values_def Map_get_def
  by (induction m) auto

lemma entries_ok_fresh: "entries_ok idf c m \<Longrightarrow> c \<notin> set (map fst m)"
  unfolding entries_ok_def by force

lemma entries_ok_append:
  "entries_ok idf c m \<Longrightarrow> idf v = c \<Longrightarrow> entries_ok idf (c + 1) (m @ [(c, v)])"
  unfolding entries_ok_def by force

lemma entries_ok_get:
  "entries_ok idf c m \<Longrightarrow> Map_get m k = Some v \<Longrightarrow> idf v = k \<and> 0 < k \<and> k < c"
  unfolding entries_ok_def Map_get_def by (force dest: map_of_SomeD)

lemma set_update_subset: "set (AList.update k v m) \<subseteq> insert (k, v) (set m)"
  by (induction m) auto

lemma entries_ok_update:
  assumes "entries_ok idf c m" "Map_get m k = Some v" "idf v' = k"
  shows "entries_ok idf c (Map_set k v' m)"
proof -
  have mem: "(k, v) \<in> set m"
    using assms(2) by (simp add: Map_get_def map_of_SomeD)
  have d: "distinct (map fst (AList.update k v' m))"
    using assms(1) by (simp add: entries_ok_def distinct_update)
  have "idf (snd p) = fst p \<and> 0 < fst p \<and> fst p < c" if "p \<in> set (AList.update k v' m)" for p
  proof -
    from that set_update_subset have "p = (k, v') \<or> p \<in> set m" by fastforce
    then show ?thesis
      using assms(1,3) mem unfolding entries_ok_def by fastforce
  qed
  with d assms(1) show ?thesis by (simp add: entries_ok_def Map_set_def)
qed

lemma entries_ok_delete:
  assumes "entries_ok idf c m"
  shows "entries_ok idf c (AList.delete k m)"
proof -
  have "set (AList.delete k m) \<subseteq> set m" by (auto simp: AList.delete_eq)
  moreover have "distinct (map fst (AList.delete k m))"
    using assms by (simp add: entries_ok_def distinct_delete)
  ultimately show ?thesis using assms unfolding entries_ok_def by blast
qed

lemma Map_get_set: "Map_get (Map_set k v m) j = (if j = k then Some v else Map_get m j)"
  by (simp add: Map_get_def Map_set_def update_conv')

lemma Map_set_keys_present:
  "Map_get m k = Some v \<Longrightarrow> map fst (Map_set k v' m) = map fst m"
  unfolding Map_get_def Map_set_def
  by (simp add: update_keys) (metis domI dom_map_of_conv_image_fst)

lemma Map_delete_fst: "fst (Map_delete k m) = (Map_get m k \<noteq> None)"
  unfolding Map_delete_def Map_get_def
  by (simp add: map_of_eq_None_iff)

lemma Map_delete_snd: "snd (Map_delete k m) = filter (\<lambda>p. fst p \<noteq> k) m"
  unfolding Map_delete_def
  by (auto simp: AList.delete_eq intro: filter_cong)

lemma Map_get_filter:
  "Map_get (filter (\<lambda>p. fst p \<noteq> k) m) j = (if j = k then None else Map_get m j)"
  unfolding Map_get_def by (induction m) auto

section \<open>Deleting a document\<close>

text \<open>
  Claim C7. \<open>deleteDocument(id)\<close> returns true exactly when a document with that id was
  in the store, which is then removed; it returns false otherwise and then changes
  nothing. In both cases every other document stays, and the sessions, the messages, the
  users and the four counters are as before: nothing cascades.
\<close>

theorem deleteDocument_no_cascade:
  "fst (deleteDocument i st) = (getDocument i st \<noteq> None)
   \<and> getDocument i (snd (deleteDocument i st)) = None
   \<and> (\<forall>j. j \<noteq> i \<longrightarrow> getDocument j (snd (deleteDocument i st)) = getDocument j st)
   \<and> documents (snd (deleteDocument i st)) = filter (\<lambda>p. fst p \<noteq> i) (documents st)
   \<and> (getDocument i st = None \<longrightarrow> snd (deleteDocument i st) = st)
   \<and> sessions (snd (deleteDocument i st)) = sessions st
   \<and> messages (snd (deleteDocument i st)) = messages st
   \<and> users (snd (deleteDocument i st)) = users st
   \<and> userIdCounter (snd (deleteDocument i st)) = userIdCounter st
   \<and> documentIdCounter (snd (deleteDocument i st)) = documentIdCounter st
   \<and> sessionIdCounter (snd (deleteDocument i st)) = sessionIdCounter st
   \<and> messageIdCounter (snd (deleteDocument i st)) = messageIdCounter st"
proof -
  have r: "deleteDocument i st =
      (getDocument i st \<noteq> None, st\<lparr>documents := filter (\<lambda>p. fst p \<noteq> i) (documents st)\<rparr>)"
    using Map_delete_fst [of i "documents st"] Map_delete_snd [of i "documents st"]
    by (simp add: deleteDocument_def getDocument_def split_beta)
  have unchanged: "filter (\<lambda>p. fst p \<noteq> i) (documents st) = documents st"
    if "getDocument i st = None"
  proof -
    from that have "i \<notin> fst ` set (documents st)"
      by (simp add: getDocument_def Map_get_def map_of_eq_None_iff)
    then show ?thesis by (auto simp: filter_id_conv)
  qed
  show ?thesis
    unfolding r using unchanged
    by (simp add: getDocument_def Map_get_filter)
qed

theorem deleteDocument_no_cascade_witness:
  "fst (deleteDocument 1 (snd (createDocument
       \<lparr>d_name = ''a.txt'', d_originalName = ''a.txt'', d_mimeType = ''text/plain'',
        d_size = 1, d_content = ''x''\<rparr> 5 constructor))) = True
   \<and> getDocument 1 (snd (deleteDocument 1 (snd (createDocument
       \<lparr>d_name = ''a.txt'', d_originalName = ''a.txt'', d_mimeType = ''text/plain'',
        d_size = 1, d_content = ''x''\<rparr> 5 constructor)))) = None
   \<and> documentIdCounter (snd (deleteDocument 1 (snd (createDocument
       \<lparr>d_name = ''a.txt'', d_originalName = ''a.txt'', d_mimeType = ''text/plain'',
        d_size = 1, d_content = ''x''\<rparr> 5 constructor)))) = 2
   \<and> fst (deleteDocument 7 constructor) = False
   \<and> snd (deleteDocument 7 constructor) = constructor"
  using deleteDocument_no_cascade [of 1 "snd (createDocument
       \<lparr>d_name = ''a.txt'', d_originalName = ''a.txt'', d_mimeType = ''text/plain'',
        d_size = 1, d_content = ''x''\<rparr> 5 constructor)"]
    deleteDocument_no_cascade [of 7 constructor]
  by (simp add: createDocument_def constructor_def getDocument_def Map_get_def Map_set_def Let_def)

section \<open>Renaming a session\<close>

text \<open>
  Claim C10. For a session id present in the store, \<open>updateSessionName(id, name)\<close>
  returns and stores the session with only its name replaced (id, documentId, createdAt
  and lastMessageAt as before), changes no other session, keeps the order of the
  sessions and leaves the rest of the store alone; for an absent id it returns undefined
  and the store is unchanged.
\<close>

theorem updateSessionName_frame:
  "(\<forall>s. getSession i st = Some s \<longrightarrow>
      fst (updateSessionName i name st) = Some (s\<lparr>s_name := name\<rparr>)
      \<and> getSession i (snd (updateSessionName i name st)) = Some (s\<lparr>s_name := name\<rparr>)
      \<and> s_id (s\<lparr>s_name := name\<rparr>) = s_id s
      \<and> s_documentId (s\<lparr>s_name := name\<rparr>) = s_documentId s
      \<and> s_createdAt (s\<lparr>s_name := name\<rparr>) = s_createdAt s
      \<and> s_lastMessageAt (s\<lparr>s_name := name\<rparr>) = s_lastMessageAt s
      \<and> (\<forall>j. j \<noteq> i \<longrightarrow> getSession j (snd (updateSessionName i name st)) = getSession j st)
      \<and> map fst (sessions (snd (updateSessionName i name st))) = map fst (sessions st)
      \<and> snd (updateSessionName i name st)
          = st\<lparr>sessions := sessions (snd (updateSessionName i name st))\<rparr>)
   \<and> (getSession i st = None \<longrightarrow> updateSessionName i name st = (None, st))"
proof (cases "getSession i st")
  case None
  then show ?thesis
    by (simp add: updateSessionName_def getSession_def)
next
  case (Some s)
  then have g: "Map_get (sessions st) i = Some s"
    by (simp add: getSession_def)
  have r: "updateSessionName i name st =
      (Some (s\<lparr>s_name := name\<rparr>),
       st\<lparr>sessions := Map_set i (s\<lparr>s_name := name\<rparr>) (sessions st)\<rparr>)"
    by (simp add: updateSessionName_def g Let_def)
  have others: "getSession j (snd (updateSessionName i name st)) = getSession j st"
    if "j \<noteq> i" for j
    using that by (simp add: r getSession_def Map_get_set)
  have keys: "map fst (sessions (snd (updateSessionName i name st))) = map fst (sessions st)"
    by (simp add: r Map_set_keys_present [OF g])
  show ?thesis
    using Some others keys by (simp add: r getSession_def Map_get_set)
qed

section \<open>The store operations on a well-formed store\<close>

lemma Map_set_twice [simp]: "Map_set k v (Map_set k v' m) = Map_set k v m"
  by (simp add: Map_set_def)

lemma wf_constructor: "wf constructor"
  by (simp add: wf_def constructor_def entries_ok_def)

lemma createUser_eq:
  assumes "wf st"
  shows "createUser ins st =
     (\<lparr>u_username = u_username ins, u_password = u_password ins, u_id = userIdCounter st\<rparr>,
      st\<lparr>userIdCounter := userIdCounter st + 1,
         users := users st @ [(userIdCounter st,
           \<lparr>u_username = u_username ins, u_password = u_password ins,
            u_id = userIdCounter st\<rparr>)]\<rparr>)"
  using assms entries_ok_fresh [of u_id "userIdCounter st" "users st"]
  by (simp add: createUser_def Let_def wf_def Map_set_fresh)

lemma createDocument_eq:
  assumes "wf st"
  shows "createDocument ins now st =
     (\<lparr>d_name = d_name ins, d_originalName = d_originalName ins,
       d_mimeType = d_mimeType ins, d_size = d_size ins, d_content = d_content ins,
       d_id = documentIdCounter st, d_uploadedAt = now\<rparr>,
      st\<lparr>documentIdCounter := documentIdCounter st + 1,
         documents := documents st @ [(documentIdCounter st,
           \<lparr>d_name = d_name ins, d_originalName = d_originalName ins,
            d_mimeType = d_mimeType ins, d_size = d_size ins, d_content = d_content ins,
            d_id = documentIdCounter st, d_uploadedAt = now\<rparr>)]\<rparr>)"
  using assms entries_ok_fresh [of d_id "documentIdCounter st" "documents st"]
  by (simp add: createDocument_def Let_def wf_def Map_set_fresh)

lemma createSession_eq:
  assumes "wf st"
  shows "createSession ins now st =
     (\<lparr>s_documentId = s_documentId ins, s_name = s_name ins,
       s_id = sessionIdCounter st, s_createdAt = now, s_lastMessageAt = now\<rparr>,
      st\<lparr>sessionIdCounter := sessionIdCounter st + 1,
         sessions := sessions st @ [(sessionIdCounter st,
           \<lparr>s_documentId = s_documentId ins, s_name = s_name ins,
            s_id = sessionIdCounter st, s_createdAt = now, s_lastMessageAt = now\<rparr>)]\<rparr>)"
  using assms entries_ok_fresh [of s_id "sessionIdCounter st" "sessions st"]
  by (simp add: createSession_def Let_def wf_def Map_set_fresh)

lemma createMessage_eq:
  assumes "wf st"
  shows "createMessage ins t t' st =
     (\<lparr>m_documentId = m_documentId ins, m_role = m_role ins, m_content = m_content ins,
       m_id = messageIdCounter st, m_timestamp = t\<rparr>,
      st\<lparr>messageIdCounter := messageIdCounter st + 1,
         messages := messages st @ [(messageIdCounter st,
           \<lparr>m_documentId = m_documentId ins, m_role = m_role ins, m_content = m_content ins,
            m_id = messageIdCounter st, m_timestamp = t\<rparr>)],
         sessions := touch (m_documentId ins) t' (sessions st)\<rparr>)"
proof -
  have s: "entries_ok s_id (sessionIdCounter st) (sessions st)"
    and m: "entries_ok m_id (messageIdCounter st) (messages st)"
    using assms by (simp_all add: wf_def)
  note f = find_by_id [OF s, of "m_documentId ins"]
  show ?thesis
  proof (cases "Map_get (sessions st) (m_documentId ins)")
    case None
    then show ?thesis
      using f entries_ok_fresh [OF m]
      by (simp add: createMessage_def Let_def Map_set_fresh touch_def)
  next
    case (Some s0)
    then have "s_id s0 = m_documentId ins"
      using entries_ok_get [OF s] by blast
    then show ?thesis
      using f Some entries_ok_fresh [OF m]
      by (simp add: createMessage_def Let_def Map_set_fresh touch_def)
  qed
qed


lemma touch_get:
  "Map_get (touch sid t' m) j =
     (if j = sid then map_option (\<lambda>s. s\<lparr>s_lastMessageAt := t'\<rparr>) (Map_get m sid)
      else Map_get m j)"
  by (simp add: touch_def Map_get_set split: option.split)

lemma touch_keys: "map fst (touch sid t' m) = map fst m"
  by (simp add: touch_def Map_set_keys_present split: option.split)

lemma touch_absent: "Map_get m sid = None \<Longrightarrow> touch sid t' m = m"
  by (simp add: touch_def)

lemma touch_twice: "touch sid t'' (touch sid t' m) = touch sid t'' m"
  by (simp add: touch_def Map_get_set split: option.split)

lemma touch_entries_ok:
  "entries_ok s_id c m \<Longrightarrow> entries_ok s_id c (touch sid t' m)"
  unfolding touch_def
  by (auto split: option.split intro!: entries_ok_update dest: entries_ok_get)

lemma wf_createUser: "wf st \<Longrightarrow> wf (snd (createUser ins st))"
  by (simp add: createUser_eq) (simp add: wf_def entries_ok_append)

lemma wf_createDocument: "wf st \<Longrightarrow> wf (snd (createDocument ins now st))"
  by (simp add: createDocument_eq) (simp add: wf_def entries_ok_append)

lemma wf_createSession: "wf st \<Longrightarrow> wf (snd (createSession ins now st))"
  by (simp add: createSession_eq) (simp add: wf_def entries_ok_append)

lemma wf_createMessage: "wf st \<Longrightarrow> wf (snd (createMessage ins t t' st))"
  by (simp add: createMessage_eq) (simp add: wf_def entries_ok_append touch_entries_ok)

lemma wf_deleteDocument: "wf st \<Longrightarrow> wf (snd (deleteDocument i st))"
  by (simp add: deleteDocument_def Map_delete_def wf_def entries_ok_delete)

lemma wf_updateSessionName: "wf st \<Longrightarrow> wf (snd (updateSessionName i name st))"
  by (auto simp: updateSessionName_def wf_def Let_def split: option.split
      intro!: entries_ok_update dest: entries_ok_get)

lemma wf_apply_op: "wf st \<Longrightarrow> wf (snd (apply_op x st))"
  by (cases x)
    (simp_all add: split_beta wf_createUser wf_createDocument wf_createSession
      wf_createMessage wf_deleteDocument wf_updateSessionName)

lemma wf_run: "wf st \<Longrightarrow> wf (snd (run xs st))"
proof (induction xs arbitrary: st)
  case Nil
  then show ?case by simp
next
  case (Cons x xs)
  from Cons.prems have "wf (snd (apply_op x st))" by (rule wf_apply_op)
  then have "wf (snd (run xs (snd (apply_op x st))))" by (rule Cons.IH)
  then show ?case by (simp add: split_beta)
qed

lemma insort_key_snoc:
  "\<forall>x \<in> set zs. f x \<le> f y \<Longrightarrow> f a \<le> f y
   \<Longrightarrow> insort_key f a (zs @ [y]) = insort_key f a zs @ [y]"
  by (induction zs) auto

lemma sort_key_snoc:
  "\<forall>x \<in> set xs. f x \<le> f y \<Longrightarrow> sort_key f (xs @ [y]) = sort_key f xs @ [y]"
proof (induction xs)
  case Nil
  then show ?case by simp
next
  case (Cons a xs)
  then have "sort_key f (xs @ [y]) = sort_key f xs @ [y]" by simp
  moreover have "\<forall>x \<in> set (sort_key f xs). f x \<le> f y" using Cons.prems by simp
  ultimately show ?case using Cons.prems by (simp add: insort_key_snoc)
qed

lemma getMessages_snoc_other:
  "messages st' = messages st @ [(i, m)] \<Longrightarrow> m_documentId m \<noteq> sid
   \<Longrightarrow> getMessages sid st' = getMessages sid st"
  by (simp add: getMessages_def Map_values_def)

lemma getMessages_snoc_same:
  assumes "messages st' = messages st @ [(i, m)]" "m_documentId m = sid"
    and "\<forall>x \<in> set (getMessages sid st). m_timestamp x \<le> m_timestamp m"
  shows "getMessages sid st' = getMessages sid st @ [m]"
  using assms by (simp add: getMessages_def Map_values_def sort_key_snoc)

lemma getMessages_mset:
  "mset (getMessages sid st) =
     filter_mset (\<lambda>m. m_documentId m = sid) (mset (Map_values (messages st)))"
  by (simp add: getMessages_def)

lemma getMessages_sorted: "sorted (map m_timestamp (getMessages sid st))"
  by (simp add: getMessages_def)

lemma getMessages_stamps:
  "stamps_le t st \<Longrightarrow> \<forall>x \<in> set (getMessages sid st). m_timestamp x \<le> t"
  by (simp add: getMessages_def stamps_le_def)

section \<open>Identifiers\<close>

lemma assigned_append: "assigned k (a @ b) = assigned k a @ assigned k b"
  by (simp add: assigned_def)

lemma counter_createMessage:
  "counter k (snd (createMessage ins t t' st)) =
     (if k = Message then counter k st + 1 else counter k st)"
  by (cases k) (simp_all add: createMessage_def Let_def split: option.split)

lemma apply_op_assigned:
  "assigned k (fst (apply_op x st)) = [counter k st .. counter k (snd (apply_op x st)) - 1]"
proof (cases x)
  case (CreateUser ins)
  then show ?thesis
    by (cases k) (simp_all add: assigned_def createUser_def Let_def)
next
  case (CreateDocument ins now)
  then show ?thesis
    by (cases k) (simp_all add: assigned_def createDocument_def Let_def)
next
  case (DeleteDocument i)
  then show ?thesis
    by (cases k) (simp_all add: assigned_def deleteDocument_def split_beta)
next
  case (CreateSession ins now)
  then show ?thesis
    by (cases k) (simp_all add: assigned_def createSession_def Let_def)
next
  case (UpdateSessionName i name)
  then show ?thesis
    by (cases k)
      (simp_all add: assigned_def updateSessionName_def Let_def split: option.split)
next
  case (CreateMessage ins t t')
  have "m_id (fst (createMessage ins t t' st)) = messageIdCounter st"
    by (simp add: createMessage_def Let_def split: option.split)
  with CreateMessage show ?thesis
    using counter_createMessage [of k ins t t' st]
    by (cases k) (simp_all add: assigned_def split_beta)
qed

lemma apply_op_counter: "counter k st \<le> counter k (snd (apply_op x st))"
proof (cases x)
  case (CreateMessage ins t t')
  then show ?thesis
    using counter_createMessage [of k ins t t' st] by (simp add: split_beta)
qed (cases k; simp add: createUser_def createDocument_def createSession_def
       deleteDocument_def updateSessionName_def Let_def split_beta split: option.split)+

lemma run_assigned:
  "counter k st \<le> counter k (snd (run xs st)) \<and>
   assigned k (fst (run xs st)) = [counter k st .. counter k (snd (run xs st)) - 1]"
proof (induction xs arbitrary: st)
  case Nil
  then show ?case by (simp add: assigned_def)
next
  case (Cons x xs)
  let ?st1 = "snd (apply_op x st)"
  let ?st2 = "snd (run xs ?st1)"
  have a: "counter k st \<le> counter k ?st1" by (rule apply_op_counter)
  have b: "counter k ?st1 \<le> counter k ?st2"
    and c: "assigned k (fst (run xs ?st1)) = [counter k ?st1 .. counter k ?st2 - 1]"
    using Cons.IH [of ?st1] by simp_all
  have "[counter k st .. counter k ?st2 - 1]
      = [counter k st .. counter k ?st1 - 1] @ [counter k ?st1 .. counter k ?st2 - 1]"
    using a b upto_split2 [of "counter k st" "counter k ?st1 - 1" "counter k ?st2 - 1"]
    by (cases "counter k st = counter k ?st1") auto
  then show ?case
    using a b c by (simp add: split_beta assigned_append apply_op_assigned)
qed

lemma wf_keys: "wf st \<Longrightarrow> set (keys_of k st) \<subseteq> {1 .. counter k st - 1}"
  by (cases k) (auto simp: wf_def entries_ok_def)

text \<open>
  Claim C6. Along every sequence of create, delete and rename operations on a fresh
  store, the identifiers assigned within each entity kind are distinct positive integers,
  strictly increasing in the order of creation: they are \<open>1, 2, ..., n\<close>. An identifier
  is never assigned twice, whatever was deleted in between, and every key in the store is
  one of the identifiers assigned.
\<close>

theorem identifiers_unique_increasing_never_reused:
  "sorted_wrt (<) (assigned k (fst (run xs constructor)))
   \<and> distinct (assigned k (fst (run xs constructor)))
   \<and> (\<forall>i \<in> set (assigned k (fst (run xs constructor))). 0 < i)
   \<and> assigned k (fst (run xs constructor))
       = [1 .. int (length (assigned k (fst (run xs constructor))))]
   \<and> set (keys_of k (snd (run xs constructor)))
       \<subseteq> set (assigned k (fst (run xs constructor)))"
proof -
  let ?c = "counter k (snd (run xs constructor))"
  have c1: "counter k constructor = 1"
    by (cases k) (simp_all add: constructor_def)
  have le: "1 \<le> ?c" and eq: "assigned k (fst (run xs constructor)) = [1 .. ?c - 1]"
    using run_assigned [of k constructor xs] c1 by simp_all
  have "wf (snd (run xs constructor))"
    using wf_constructor by (rule wf_run)
  then have "set (keys_of k (snd (run xs constructor))) \<subseteq> {1 .. ?c - 1}"
    by (rule wf_keys)
  then show ?thesis
    unfolding eq using le by simp
qed

section \<open>Time stamps\<close>

lemma stamps_le_mono: "stamps_le t st \<Longrightarrow> t \<le> t' \<Longrightarrow> stamps_le t' st"
  unfolding stamps_le_def by fastforce

lemma stamps_constructor: "stamps_le t constructor"
  by (simp add: stamps_le_def constructor_def Map_values_def)

lemma touch_values:
  "set (Map_values (touch sid t' m))
     \<subseteq> set (Map_values m) \<union> {s\<lparr>s_lastMessageAt := t'\<rparr> | s. Map_get m sid = Some s}"
proof (cases "Map_get m sid")
  case None
  then show ?thesis by (simp add: touch_def)
next
  case (Some s)
  have "set (Map_set sid (s\<lparr>s_lastMessageAt := t'\<rparr>) m)
      \<subseteq> insert (sid, s\<lparr>s_lastMessageAt := t'\<rparr>) (set m)"
    unfolding Map_set_def by (rule set_update_subset)
  then show ?thesis
    using Some by (auto simp: touch_def Map_values_def)
qed

lemma stamps_createMessage:
  assumes "wf st" "stamps_le t0 st" "t0 \<le> t" "t \<le> t'"
  shows "stamps_le t' (snd (createMessage ins t t' st))"
proof -
  have old: "stamps_le t' st"
    using assms(2-4) by (auto intro: stamps_le_mono)
  have "s_lastMessageAt s \<le> t'"
    if "s \<in> set (Map_values (touch (m_documentId ins) t' (sessions st)))" for s
    using that touch_values [of "m_documentId ins" t' "sessions st"] old
    by (auto simp: stamps_le_def)
  then show ?thesis
    using old assms(4) by (simp add: createMessage_eq [OF assms(1)] stamps_le_def Map_values_def)
qed

lemma stamps_createSession:
  assumes "wf st" "stamps_le t0 st" "t0 \<le> now"
  shows "stamps_le now (snd (createSession ins now st))"
  using stamps_le_mono [OF assms(2,3)]
  by (simp add: createSession_eq [OF assms(1)] stamps_le_def Map_values_def)

lemma stamps_createDocument:
  assumes "wf st" "stamps_le t0 st" "t0 \<le> now"
  shows "stamps_le now (snd (createDocument ins now st))"
  using stamps_le_mono [OF assms(2,3)]
  by (simp add: createDocument_eq [OF assms(1)] stamps_le_def)

lemma stamps_updateSessionName:
  assumes "stamps_le t0 st"
  shows "stamps_le t0 (snd (updateSessionName i name st))"
proof (cases "Map_get (sessions st) i")
  case None
  then show ?thesis using assms by (simp add: updateSessionName_def)
next
  case (Some s)
  then have mem: "(i, s) \<in> set (sessions st)"
    by (simp add: Map_get_def map_of_SomeD)
  have sub: "set (Map_set i (s\<lparr>s_name := name\<rparr>) (sessions st))
      \<subseteq> insert (i, s\<lparr>s_name := name\<rparr>) (set (sessions st))"
    unfolding Map_set_def by (rule set_update_subset)
  have "s_lastMessageAt (snd p) \<le> t0"
    if "p \<in> set (Map_set i (s\<lparr>s_name := name\<rparr>) (sessions st))" for p
  proof -
    from that sub have "p = (i, s\<lparr>s_name := name\<rparr>) \<or> p \<in> set (sessions st)" by blast
    then show ?thesis
      using assms mem by (force simp: stamps_le_def Map_values_def)
  qed
  then show ?thesis
    using assms Some
    by (simp add: updateSessionName_def Let_def stamps_le_def Map_values_def)
qed

lemma stamps_apply_op:
  assumes "wf st" "stamps_le t0 st" "sorted (t0 # readings x)"
  shows "stamps_le (last (t0 # readings x)) (snd (apply_op x st))"
proof (cases x)
  case (CreateUser ins)
  then show ?thesis using assms by (simp add: createUser_def Let_def stamps_le_def)
next
  case (CreateDocument ins now)
  then show ?thesis using assms stamps_createDocument by (simp add: split_beta)
next
  case (DeleteDocument i)
  then show ?thesis using assms by (simp add: deleteDocument_def split_beta stamps_le_def)
next
  case (CreateSession ins now)
  then show ?thesis using assms stamps_createSession by (simp add: split_beta)
next
  case (UpdateSessionName i name)
  then show ?thesis using assms stamps_updateSessionName by simp
next
  case (CreateMessage ins t t')
  then show ?thesis using assms stamps_createMessage by (simp add: split_beta)
qed

lemma sorted_last_le: "sorted (a # xs) \<Longrightarrow> a \<le> last (a # xs)"
  by (induction xs arbitrary: a) auto

lemma stamps_run:
  assumes "wf st" "stamps_le t0 st" "sorted (t0 # clock_of xs)"
  shows "stamps_le (last (t0 # clock_of xs)) (snd (run xs st))"
  using assms
proof (induction xs arbitrary: st t0)
  case Nil
  then show ?case by (simp add: clock_of_def)
next
  case (Cons x xs)
  let ?t1 = "last (t0 # readings x)"
  let ?st1 = "snd (apply_op x st)"
  have s: "sorted (t0 # readings x @ clock_of xs)"
    using Cons.prems(3) by (simp add: clock_of_def)
  then have s0: "sorted (t0 # readings x)"
    by (simp add: sorted_append)
  have s1: "sorted (?t1 # clock_of xs)"
    using s by (cases "readings x" rule: rev_cases) (auto simp: sorted_append)
  have "stamps_le ?t1 ?st1"
    using Cons.prems(1,2) s0 by (rule stamps_apply_op)
  with wf_apply_op [OF Cons.prems(1)]
  have "stamps_le (last (?t1 # clock_of xs)) (snd (run xs ?st1))"
    using s1 by (rule Cons.IH)
  moreover have "last (?t1 # clock_of xs) = last (t0 # clock_of (x # xs))"
    by (simp add: clock_of_def)
  ultimately show ?case by (simp add: split_beta)
qed

lemma stamps_run_constructor:
  assumes "sorted (clock_of xs @ [t])"
  shows "stamps_le t (snd (run xs constructor))"
proof (cases "clock_of xs")
  case Nil
  have "stamps_le t0 (snd (run xs constructor))" for t0
    using stamps_run [OF wf_constructor stamps_constructor, of t0 xs] Nil by simp
  then show ?thesis .
next
  case (Cons a as)
  have "stamps_le (last (a # clock_of xs)) (snd (run xs constructor))"
    using assms Cons
    by (intro stamps_run wf_constructor stamps_constructor) (simp add: sorted_append)
  moreover have "last (a # clock_of xs) \<le> t"
    using assms Cons by (auto simp: sorted_append)
  ultimately show ?thesis by (rule stamps_le_mono)
qed

lemma stamps_session:
  "stamps_le t st \<Longrightarrow> getSession i st = Some s \<Longrightarrow> s_lastMessageAt s \<le> t"
  unfolding stamps_le_def getSession_def Map_get_def Map_values_def
  by (force dest: map_of_SomeD)

text \<open>
  Claim C4, amended. In every store, \<open>getMessages(sessionId)\<close> returns exactly the
  messages whose session reference equals \<open>sessionId\<close> (as a multiset), sorted by
  timestamp ascending.
  After any run of store operations from the fresh store, \<open>createMessage\<close> sets the
  referenced session's \<open>lastMessageAt\<close> to its second clock reading, leaves the
  sessions map as it is when no session has that id, and never changes another session.
  The new \<open>lastMessageAt\<close> is at least the previous value whenever the clock readings of
  the run and of this call never step back.
\<close>

theorem getMessages_sorted_createMessage_lastMessageAt:
  "sorted (map m_timestamp (getMessages sid st))
   \<and> mset (getMessages sid st)
       = filter_mset (\<lambda>m. m_documentId m = sid) (mset (Map_values (messages st)))
   \<and> (\<forall>s. getSession (m_documentId ins) (snd (run xs constructor)) = Some s \<longrightarrow>
          getSession (m_documentId ins)
              (snd (createMessage ins t t' (snd (run xs constructor))))
            = Some (s\<lparr>s_lastMessageAt := t'\<rparr>)
          \<and> (sorted (clock_of (xs @ [CreateMessage ins t t'])) \<longrightarrow>
                s_lastMessageAt s \<le> t'))
   \<and> (getSession (m_documentId ins) (snd (run xs constructor)) = None \<longrightarrow>
          sessions (snd (createMessage ins t t' (snd (run xs constructor))))
            = sessions (snd (run xs constructor)))
   \<and> (\<forall>j. j \<noteq> m_documentId ins \<longrightarrow>
          getSession j (snd (createMessage ins t t' (snd (run xs constructor))))
            = getSession j (snd (run xs constructor)))"
proof -
  let ?st0 = "snd (run xs constructor)"
  have wf0: "wf ?st0" using wf_constructor by (rule wf_run)
  have frame: "sessions (snd (createMessage ins t t' ?st0))
      = touch (m_documentId ins) t' (sessions ?st0)"
    by (simp add: createMessage_eq [OF wf0])
  have time: "s_lastMessageAt s \<le> t'"
    if "sorted (clock_of (xs @ [CreateMessage ins t t']))"
      and "getSession (m_documentId ins) ?st0 = Some s" for s
  proof -
    from that(1) have "sorted (clock_of xs @ [t'])"
      by (simp add: clock_of_def sorted_append)
    then have "stamps_le t' ?st0" by (rule stamps_run_constructor)
    then show ?thesis using that(2) by (rule stamps_session)
  qed
  show ?thesis
    using time
    by (simp add: getMessages_sorted getMessages_mset frame getSession_def touch_get
        touch_absent)
qed

section \<open>The chat handler on a well-formed store\<close>

lemma touch_present:
  "Map_get m sid = Some s \<Longrightarrow> touch sid t' m = Map_set sid (s\<lparr>s_lastMessageAt := t'\<rparr>) m"
  by (simp add: touch_def)

lemma chatInSession_eq:
  assumes wf: "wf st" and present: "getSession (s_id session) st = Some session"
    and clk: "clk k = ta" "clk (k + 1) = tb" "clk (k + 2) = tc" "clk (k + 3) = td"
    and u: "u = \<lparr>m_documentId = s_id session, m_role = ''user'', m_content = message,
                 m_id = messageIdCounter st, m_timestamp = ta\<rparr>"
    and st1: "st1 = st\<lparr>messageIdCounter := messageIdCounter st + 1,
                 messages := messages st @ [(messageIdCounter st, u)],
                 sessions := Map_set (s_id session)
                   (session\<lparr>s_lastMessageAt := tb\<rparr>) (sessions st)\<rparr>"
    and p: "p = formattedMessages document (getMessages (s_id session) st1)"
  shows "chatInSession groq clk k document message session st =
     (case groq p of
        Inl err \<Rightarrow> (Chat500 err, st1, [p])
      | Inr reply \<Rightarrow>
          (Chat200 session u
             \<lparr>m_documentId = s_id session, m_role = ''assistant'', m_content = reply,
              m_id = messageIdCounter st + 1, m_timestamp = tc\<rparr>,
           st\<lparr>messageIdCounter := messageIdCounter st + 2,
              messages := messages st @
                [(messageIdCounter st, u),
                 (messageIdCounter st + 1,
                  \<lparr>m_documentId = s_id session, m_role = ''assistant'', m_content = reply,
                   m_id = messageIdCounter st + 1, m_timestamp = tc\<rparr>)],
              sessions := Map_set (s_id session)
                (session\<lparr>s_lastMessageAt := td\<rparr>) (sessions st)\<rparr>,
           [p]))"
proof -
  have g: "Map_get (sessions st) (s_id session) = Some session"
    using present by (simp add: getSession_def)
  have first: "createMessage
      \<lparr>m_documentId = s_id session, m_role = ''user'', m_content = message\<rparr> ta tb st
      = (u, st1)"
    by (simp add: createMessage_eq [OF wf] u st1 touch_present [OF g])
  have wf1: "wf st1"
    using wf_createMessage [OF wf, of _ ta tb] first by (metis snd_conv)
  have g1: "Map_get (sessions st1) (s_id session) = Some (session\<lparr>s_lastMessageAt := tb\<rparr>)"
    by (simp add: st1 Map_get_set)
  have second: "createMessage
      \<lparr>m_documentId = s_id session, m_role = ''assistant'', m_content = reply\<rparr> tc td st1 =
      (\<lparr>m_documentId = s_id session, m_role = ''assistant'', m_content = reply,
        m_id = messageIdCounter st + 1, m_timestamp = tc\<rparr>,
       st\<lparr>messageIdCounter := messageIdCounter st + 2,
          messages := messages st @
            [(messageIdCounter st, u),
             (messageIdCounter st + 1,
              \<lparr>m_documentId = s_id session, m_role = ''assistant'', m_content = reply,
               m_id = messageIdCounter st + 1, m_timestamp = tc\<rparr>)],
          sessions := Map_set (s_id session)
            (session\<lparr>s_lastMessageAt := td\<rparr>) (sessions st)\<rparr>)" for reply
    unfolding createMessage_eq [OF wf1]
    by (simp add: touch_present [OF g1]) (simp add: st1)
  show ?thesis
    unfolding chatInSession_def clk first Let_def prod.case second p
    by (simp split: sum.split)
qed

lemma clock_0:
  "clk (0 + 1) = clk (1::nat)" "clk (0 + 2) = clk (2::nat)" "clk (0 + 3) = clk (3::nat)"
  by (simp_all add: eval_nat_numeral)

lemma clock_1:
  "clk (1 + 1) = clk (2::nat)" "clk (1 + 2) = clk (3::nat)" "clk (1 + 3) = clk (4::nat)"
  by (simp_all add: eval_nat_numeral)

lemma Map_set_last:
  "k \<notin> set (map fst m) \<Longrightarrow> Map_set k v' (m @ [(k, v)]) = m @ [(k, v')]"
  unfolding Map_set_def by (induction m) auto

lemma Map_get_last:
  "k \<notin> set (map fst m) \<Longrightarrow> Map_get (m @ [(k, v)]) k = Some v"
  unfolding Map_get_def by (induction m) auto

lemma handleChat_existing:
  assumes wf: "wf st"
    and doc: "getDocument (c_documentId req) st = Some d"
    and sid: "c_sessionId req = Some sid"
    and present: "getSession sid st = Some s0"
  shows "s_id s0 = sid"
    and "handleChat groq clk (Some req) st = chatInSession groq clk 0 d (c_message req) s0 st"
proof -
  have "entries_ok s_id (sessionIdCounter st) (sessions st)"
    using wf by (simp add: wf_def)
  then have "s_id s0 = sid \<and> 0 < sid \<and> sid < sessionIdCounter st"
    using present unfolding getSession_def by (rule entries_ok_get)
  then show "s_id s0 = sid"
    and "handleChat groq clk (Some req) st = chatInSession groq clk 0 d (c_message req) s0 st"
    using doc sid present by (simp_all add: handleChat_def)
qed

lemma handleChat_existing_eq:
  assumes wf: "wf st"
    and doc: "getDocument (c_documentId req) st = Some d"
    and sid: "c_sessionId req = Some sid"
    and present: "getSession sid st = Some s0"
    and u: "u = \<lparr>m_documentId = sid, m_role = ''user'', m_content = c_message req,
                 m_id = messageIdCounter st, m_timestamp = clk 0\<rparr>"
    and st1: "st1 = st\<lparr>messageIdCounter := messageIdCounter st + 1,
                 messages := messages st @ [(messageIdCounter st, u)],
                 sessions := Map_set sid (s0\<lparr>s_lastMessageAt := clk 1\<rparr>) (sessions st)\<rparr>"
    and p: "p = formattedMessages d (getMessages sid st1)"
  shows "handleChat groq clk (Some req) st =
     (case groq p of
        Inl err \<Rightarrow> (Chat500 err, st1, [p])
      | Inr reply \<Rightarrow>
          (Chat200 s0 u
             \<lparr>m_documentId = sid, m_role = ''assistant'', m_content = reply,
              m_id = messageIdCounter st + 1, m_timestamp = clk 2\<rparr>,
           st\<lparr>messageIdCounter := messageIdCounter st + 2,
              messages := messages st @
                [(messageIdCounter st, u),
                 (messageIdCounter st + 1,
                  \<lparr>m_documentId = sid, m_role = ''assistant'', m_content = reply,
                   m_id = messageIdCounter st + 1, m_timestamp = clk 2\<rparr>)],
              sessions := Map_set sid (s0\<lparr>s_lastMessageAt := clk 3\<rparr>) (sessions st)\<rparr>,
           [p]))"
proof -
  note h = handleChat_existing [OF wf doc sid present]
  have present': "getSession (s_id s0) st = Some s0"
    using present h(1) by simp
  have u': "u = \<lparr>m_documentId = s_id s0, m_role = ''user'', m_content = c_message req,
       m_id = messageIdCounter st, m_timestamp = clk 0\<rparr>"
    by (simp add: u h(1))
  have st1': "st1 = st\<lparr>messageIdCounter := messageIdCounter st + 1,
       messages := messages st @ [(messageIdCounter st, u)],
       sessions := Map_set (s_id s0) (s0\<lparr>s_lastMessageAt := clk 1\<rparr>) (sessions st)\<rparr>"
    by (simp add: st1 h(1))
  have p': "p = formattedMessages d (getMessages (s_id s0) st1)"
    by (simp add: p h(1))
  show ?thesis
    unfolding h(2)
    by (subst chatInSession_eq [where clk = clk and k = 0,
          OF wf present' refl clock_0 [of clk] u' st1' p'])
      (simp add: h(1) split: sum.split)
qed

lemma handleChat_new_eq:
  assumes wf: "wf st"
    and doc: "getDocument (c_documentId req) st = Some d"
    and nosid: "c_sessionId req = None \<or> c_sessionId req = Some 0"
    and s: "s = \<lparr>s_documentId = c_documentId req, s_name = sessionName (d_name d),
                 s_id = sessionIdCounter st, s_createdAt = clk 0, s_lastMessageAt = clk 0\<rparr>"
    and u: "u = \<lparr>m_documentId = sessionIdCounter st, m_role = ''user'',
                 m_content = c_message req, m_id = messageIdCounter st, m_timestamp = clk 1\<rparr>"
    and st1: "st1 = st\<lparr>sessionIdCounter := sessionIdCounter st + 1,
                 messageIdCounter := messageIdCounter st + 1,
                 messages := messages st @ [(messageIdCounter st, u)],
                 sessions := sessions st @
                   [(sessionIdCounter st, s\<lparr>s_lastMessageAt := clk 2\<rparr>)]\<rparr>"
    and p: "p = formattedMessages d (getMessages (sessionIdCounter st) st1)"
  shows "handleChat groq clk (Some req) st =
     (case groq p of
        Inl err \<Rightarrow> (Chat500 err, st1, [p])
      | Inr reply \<Rightarrow>
          (Chat200 s u
             \<lparr>m_documentId = sessionIdCounter st, m_role = ''assistant'', m_content = reply,
              m_id = messageIdCounter st + 1, m_timestamp = clk 3\<rparr>,
           st\<lparr>sessionIdCounter := sessionIdCounter st + 1,
              messageIdCounter := messageIdCounter st + 2,
              messages := messages st @
                [(messageIdCounter st, u),
                 (messageIdCounter st + 1,
                  \<lparr>m_documentId = sessionIdCounter st, m_role = ''assistant'',
                   m_content = reply, m_id = messageIdCounter st + 1, m_timestamp = clk 3\<rparr>)],
              sessions := sessions st @
                [(sessionIdCounter st, s\<lparr>s_lastMessageAt := clk 4\<rparr>)]\<rparr>,
           [p]))"
proof -
  let ?st0 = "st\<lparr>sessionIdCounter := sessionIdCounter st + 1,
                 sessions := sessions st @ [(sessionIdCounter st, s)]\<rparr>"
  have created: "createSession
      \<lparr>s_documentId = c_documentId req, s_name = sessionName (d_name d)\<rparr> (clk 0) st
      = (s, ?st0)"
    by (simp add: createSession_eq [OF wf] s)
  have h: "handleChat groq clk (Some req) st
      = chatInSession groq clk 1 d (c_message req) s ?st0"
    using nosid doc by (auto simp: handleChat_def created)
  have wf0: "wf ?st0"
    using wf_createSession [OF wf, of _ "clk 0"] created by (metis snd_conv)
  have fresh: "sessionIdCounter st \<notin> set (map fst (sessions st))"
    using wf entries_ok_fresh [of s_id "sessionIdCounter st" "sessions st"]
    by (simp add: wf_def)
  have present: "getSession (s_id s) ?st0 = Some s"
    using fresh by (simp add: getSession_def s Map_get_last)
  have sid: "s_id s = sessionIdCounter st" by (simp add: s)
  have gm: "getMessages i (x\<lparr>sessions := y\<rparr>) = getMessages i x" for i x y
    by (simp add: getMessages_def)
  have st1': "st1 = ?st0\<lparr>messageIdCounter := messageIdCounter ?st0 + 1,
       messages := messages ?st0 @ [(messageIdCounter ?st0, u)],
       sessions := Map_set (s_id s) (s\<lparr>s_lastMessageAt := clk 2\<rparr>) (sessions ?st0)\<rparr>"
    using fresh by (simp add: st1 sid Map_set_last)
  have u': "u = \<lparr>m_documentId = s_id s, m_role = ''user'', m_content = c_message req,
       m_id = messageIdCounter ?st0, m_timestamp = clk 1\<rparr>"
    by (simp add: u sid)
  have p': "p = formattedMessages d (getMessages (s_id s) st1)"
    by (simp add: p sid)
  show ?thesis
    unfolding h
    by (subst chatInSession_eq [where clk = clk and k = 1,
          OF wf0 present refl clock_1 [of clk] u' st1' p'])
      (use fresh in \<open>simp add: sid Map_set_last split: sum.split\<close>)
qed

lemma getMessages_messages_cong:
  "messages st' = messages st \<Longrightarrow> getMessages j st' = getMessages j st"
  by (simp add: getMessages_def)

lemma getMessages_two_other:
  "messages st' = messages st @ [(i, u), (j, a)] \<Longrightarrow> m_documentId u \<noteq> sid
   \<Longrightarrow> m_documentId a \<noteq> sid \<Longrightarrow> getMessages sid st' = getMessages sid st"
  by (simp add: getMessages_def Map_values_def)

lemma getMessages_two_mset:
  "messages st' = messages st @ [(i, u), (j, a)] \<Longrightarrow> m_documentId u = sid
   \<Longrightarrow> m_documentId a = sid
   \<Longrightarrow> mset (getMessages sid st') = mset (getMessages sid st) + {#u, a#}"
  by (simp add: getMessages_def Map_values_def)

lemma getMessages_two_same:
  assumes "messages st' = messages st @ [(i, u), (j, a)]"
    and "m_documentId u = sid" "m_documentId a = sid"
    and "\<forall>x \<in> set (getMessages sid st). m_timestamp x \<le> m_timestamp u"
    and "m_timestamp u \<le> m_timestamp a"
  shows "getMessages sid st' = getMessages sid st @ [u, a]"
proof -
  let ?old = "filter (\<lambda>m. m_documentId m = sid) (Map_values (messages st))"
  have old: "\<forall>x \<in> set ?old. m_timestamp x \<le> m_timestamp u"
    using assms(4) by (simp add: getMessages_def)
  have "getMessages sid st' = sort_key m_timestamp ((?old @ [u]) @ [a])"
    using assms(1-3) by (simp add: getMessages_def Map_values_def)
  also have "\<dots> = sort_key m_timestamp (?old @ [u]) @ [a]"
    using old assms(5) by (intro sort_key_snoc) auto
  also have "sort_key m_timestamp (?old @ [u]) = sort_key m_timestamp ?old @ [u]"
    using old by (intro sort_key_snoc)
  finally show ?thesis by (simp add: getMessages_def)
qed

text \<open>
  Claim C1. Let a chat request on a well-formed store succeed with the session \<open>s\<close>,
  the user message \<open>u\<close> and the assistant message \<open>a\<close>. Then exactly the two messages
  \<open>u\<close>, \<open>a\<close> are appended to the messages of the store, in this order, both filed
  under \<open>s\<close>; \<open>u\<close> has role user and the request's text, \<open>a\<close> has role assistant and
  the reply of the one call made to the Completion Client. The history of \<open>s\<close> gains
  these two messages and no other history changes; when the clock does not step back and
  the store holds no later time, the history of \<open>s\<close> is the old one followed by \<open>u\<close>
  and \<open>a\<close>. If the request names an existing session, \<open>s\<close> is that session and no
  session is created; if it carries no session id, exactly one session is created, with
  the next identifier, named after the document.
\<close>

theorem handleChat_appends_user_then_assistant:
  assumes wf: "wf st"
    and ok: "handleChat groq clk (Some req) st = (Chat200 s u a, st', calls)"
  shows "(\<forall>sid s0. c_sessionId req = Some sid \<and> getSession sid st = Some s0 \<longrightarrow>
            s = s0 \<and> s_id s = sid
            \<and> map fst (sessions st') = map fst (sessions st)
            \<and> sessionIdCounter st' = sessionIdCounter st)
       \<and> (c_sessionId req = None \<longrightarrow>
            s_id s = sessionIdCounter st
            \<and> s_id s \<notin> set (map fst (sessions st))
            \<and> map fst (sessions st') = map fst (sessions st) @ [s_id s]
            \<and> sessionIdCounter st' = sessionIdCounter st + 1
            \<and> s_documentId s = c_documentId req
            \<and> (\<exists>d. getDocument (c_documentId req) st = Some d
                  \<and> s_name s = ''Chat about '' @ d_name d))
       \<and> getSession (s_id s) st' \<noteq> None
       \<and> messages st' = messages st @ [(m_id u, u), (m_id a, a)]
       \<and> m_documentId u = s_id s \<and> m_role u = ''user'' \<and> m_content u = c_message req
       \<and> m_documentId a = s_id s \<and> m_role a = ''assistant''
       \<and> (\<exists>p. calls = [p] \<and> groq p = Inr (m_content a))
       \<and> mset (getMessages (s_id s) st') = mset (getMessages (s_id s) st) + {#u, a#}
       \<and> (\<forall>j. j \<noteq> s_id s \<longrightarrow> getMessages j st' = getMessages j st)
       \<and> (mono clk \<and> stamps_le (clk 0) st \<longrightarrow>
            getMessages (s_id s) st' = getMessages (s_id s) st @ [u, a])"
proof -
  from ok obtain d where doc: "getDocument (c_documentId req) st = Some d"
    by (auto simp: handleChat_def split: option.splits)
  have le: "clk i \<le> clk j" if "mono clk" "i \<le> j" for i j
    using that by (simp add: monoD)
  consider (new) "c_sessionId req = None \<or> c_sessionId req = Some 0"
    | (old) sid where "c_sessionId req = Some sid" "sid \<noteq> 0"
    by (cases "c_sessionId req") auto
  then show ?thesis
  proof cases
    case new
    have zero: "getSession 0 st = None"
    proof (cases "getSession 0 st")
      case (Some x)
      have "entries_ok s_id (sessionIdCounter st) (sessions st)"
        using wf by (simp add: wf_def)
      from entries_ok_get [OF this, of 0 x] Some show ?thesis
        by (simp add: getSession_def)
    qed simp
    have fresh: "sessionIdCounter st \<notin> set (map fst (sessions st))"
      using wf entries_ok_fresh [of s_id "sessionIdCounter st" "sessions st"]
      by (simp add: wf_def)
    note eq = handleChat_new_eq [OF wf doc new refl refl refl refl, of groq clk]
    from ok [unfolded eq] obtain reply where
      r: "groq (formattedMessages d (getMessages (sessionIdCounter st)
            (st\<lparr>sessionIdCounter := sessionIdCounter st + 1,
                messageIdCounter := messageIdCounter st + 1,
                messages := messages st @ [(messageIdCounter st,
                  \<lparr>m_documentId = sessionIdCounter st, m_role = ''user'',
                   m_content = c_message req, m_id = messageIdCounter st,
                   m_timestamp = clk 1\<rparr>)],
                sessions := sessions st @ [(sessionIdCounter st,
                  \<lparr>s_documentId = c_documentId req, s_name = sessionName (d_name d),
                   s_id = sessionIdCounter st, s_createdAt = clk 0,
                   s_lastMessageAt = clk 0\<rparr>\<lparr>s_lastMessageAt := clk 2\<rparr>)]\<rparr>))) = Inr reply"
      by (auto split: sum.splits)
    note res = ok [unfolded eq r sum.case prod.inject chat_response.inject]
    have s: "s_id s = sessionIdCounter st" using res by auto
    have ms: "messages st' = messages st @ [(m_id u, u), (m_id a, a)]"
      and u: "m_documentId u = s_id s" "m_timestamp u = clk 1"
      and a: "m_documentId a = s_id s" "m_timestamp a = clk 3"
      using res by auto
    have hist: "getMessages (s_id s) st' = getMessages (s_id s) st @ [u, a]"
      if "mono clk" "stamps_le (clk 0) st"
    proof (rule getMessages_two_same [OF ms u(1) a(1)])
      have "stamps_le (clk 1) st"
        using that(2) le [OF that(1), of 0 1] by (auto intro: stamps_le_mono)
      then show "\<forall>x \<in> set (getMessages (s_id s) st). m_timestamp x \<le> m_timestamp u"
        unfolding u(2) by (rule getMessages_stamps)
      show "m_timestamp u \<le> m_timestamp a"
        using le [OF that(1), of 1 3] by (simp add: u a)
    qed
    have others: "getMessages j st' = getMessages j st" if "j \<noteq> s_id s" for j
      using that u(1) a(1) by (intro getMessages_two_other [OF ms]) auto
    have ss: "sessions st' = sessions st @
        [(sessionIdCounter st,
          \<lparr>s_documentId = c_documentId req, s_name = sessionName (d_name d),
           s_id = sessionIdCounter st, s_createdAt = clk 0, s_lastMessageAt = clk 4\<rparr>)]"
      using res by auto
    have cnt: "sessionIdCounter st' = sessionIdCounter st + 1"
      using res by auto
    have sf: "s_documentId s = c_documentId req" "s_name s = ''Chat about '' @ d_name d"
      using res by (auto simp: sessionName_def)
    have ur: "m_role u = ''user''" "m_content u = c_message req"
      and ar: "m_role a = ''assistant''" "m_content a = reply"
      using res by auto
    have cs: "\<exists>p. calls = [p] \<and> groq p = Inr reply"
      using res r by auto
    have present: "getSession (s_id s) st' \<noteq> None"
      using fresh by (simp add: getSession_def ss s Map_get_last)
    have keys: "map fst (sessions st') = map fst (sessions st) @ [s_id s]"
      by (simp add: ss s)
    have A: "\<forall>sid s0. c_sessionId req = Some sid \<and> getSession sid st = Some s0 \<longrightarrow>
            s = s0 \<and> s_id s = sid
            \<and> map fst (sessions st') = map fst (sessions st)
            \<and> sessionIdCounter st' = sessionIdCounter st"
      using new zero by auto
    have B: "c_sessionId req = None \<longrightarrow>
            s_id s = sessionIdCounter st
            \<and> s_id s \<notin> set (map fst (sessions st))
            \<and> map fst (sessions st') = map fst (sessions st) @ [s_id s]
            \<and> sessionIdCounter st' = sessionIdCounter st + 1
            \<and> s_documentId s = c_documentId req
            \<and> (\<exists>d. getDocument (c_documentId req) st = Some d
                  \<and> s_name s = ''Chat about '' @ d_name d)"
      using s fresh keys cnt sf doc by simp
    show ?thesis
      using A B present ms u(1) ur a(1) ar(1) cs [unfolded ar(2) [symmetric]]
        getMessages_two_mset [OF ms u(1) a(1)] others hist
      by blast
  next
    case old
    show ?thesis
    proof (cases "getSession sid st")
      case None
      with ok doc old show ?thesis by (simp add: handleChat_def)
    next
      case (Some s0)
      note eq = handleChat_existing_eq [OF wf doc old(1) Some refl refl refl, of groq clk]
      from ok [unfolded eq] obtain reply where
        r: "groq (formattedMessages d (getMessages sid
            (st\<lparr>messageIdCounter := messageIdCounter st + 1,
                messages := messages st @ [(messageIdCounter st,
                  \<lparr>m_documentId = sid, m_role = ''user'', m_content = c_message req,
                   m_id = messageIdCounter st, m_timestamp = clk 0\<rparr>)],
                sessions := Map_set sid (s0\<lparr>s_lastMessageAt := clk 1\<rparr>) (sessions st)\<rparr>)))
           = Inr reply"
        by (auto split: sum.splits)
      note res = ok [unfolded eq r sum.case prod.inject chat_response.inject]
      have sid: "s_id s0 = sid"
        using handleChat_existing(1) [OF wf doc old(1) Some] .
      have g: "Map_get (sessions st) sid = Some s0"
        using Some by (simp add: getSession_def)
      have ms: "messages st' = messages st @ [(m_id u, u), (m_id a, a)]"
        and u: "m_documentId u = s_id s" "m_timestamp u = clk 0"
        and a: "m_documentId a = s_id s" "m_timestamp a = clk 2"
        using res sid by auto
      have hist: "getMessages (s_id s) st' = getMessages (s_id s) st @ [u, a]"
        if "mono clk" "stamps_le (clk 0) st"
      proof (rule getMessages_two_same [OF ms u(1) a(1)])
        show "\<forall>x \<in> set (getMessages (s_id s) st). m_timestamp x \<le> m_timestamp u"
          unfolding u(2) using that(2) by (rule getMessages_stamps)
        show "m_timestamp u \<le> m_timestamp a"
          using le [OF that(1), of 0 2] by (simp add: u a)
      qed
      have others: "getMessages j st' = getMessages j st" if "j \<noteq> s_id s" for j
        using that u(1) a(1) by (intro getMessages_two_other [OF ms]) auto
      have ss: "sessions st' = Map_set sid (s0\<lparr>s_lastMessageAt := clk 3\<rparr>) (sessions st)"
        using res by auto
      have cnt: "sessionIdCounter st' = sessionIdCounter st"
        using res by auto
      have s: "s = s0" using res by auto
      have ur: "m_role u = ''user''" "m_content u = c_message req"
        and ar: "m_role a = ''assistant''" "m_content a = reply"
        using res by auto
      have cs: "\<exists>p. calls = [p] \<and> groq p = Inr reply"
        using res r by auto
      have present: "getSession (s_id s) st' \<noteq> None"
        by (simp add: getSession_def ss s sid Map_get_set)
      have keys: "map fst (sessions st') = map fst (sessions st)"
        by (simp add: ss Map_set_keys_present [OF g])
      have A: "\<forall>sid s0. c_sessionId req = Some sid \<and> getSession sid st = Some s0 \<longrightarrow>
            s = s0 \<and> s_id s = sid
            \<and> map fst (sessions st') = map fst (sessions st)
            \<and> sessionIdCounter st' = sessionIdCounter st"
        using old(1) Some s sid keys cnt by auto
      have B: "c_sessionId req \<noteq> None" using old(1) by simp
      show ?thesis
        using A B present ms u(1) ur a(1) ar(1) cs [unfolded ar(2) [symmetric]]
          getMessages_two_mset [OF ms u(1) a(1)] others hist
        by blast
    qed
  qed
qed

section \<open>The upload handler\<close>

lemma utf8_notes: "utf8 ascii_host (buffer notes_txt) = ''Hello world''"
  by code_simp

lemma filter_notes: "fileFilter ascii_host notes_txt"
  by (simp add: fileFilter_def ascii_host_def notes_txt_def)

lemma processFile_notes: "processFile ascii_host notes_txt = Inr ''Hello world''"
  using utf8_notes by (simp add: processFile_def) (simp add: ascii_host_def notes_txt_def)


lemma touch_last:
  "k \<notin> set (map fst m) \<Longrightarrow> touch k t (m @ [(k, v)]) = m @ [(k, v\<lparr>s_lastMessageAt := t\<rparr>)]"
  by (simp add: touch_def Map_get_last Map_set_last)

lemma uploadHandler_created:
  assumes wf: "wf st"
    and valid: "mimetype file \<in> set validFileTypes"
    and extracted: "processFile h file = Inr content" "content \<noteq> []"
    and d: "d = \<lparr>d_name = originalname file, d_originalName = originalname file,
                 d_mimeType = mimetype file, d_size = f_size file, d_content = content,
                 d_id = documentIdCounter st, d_uploadedAt = clk 0\<rparr>"
    and s: "s = \<lparr>s_documentId = documentIdCounter st,
                 s_name = sessionName (originalname file),
                 s_id = sessionIdCounter st, s_createdAt = clk 1, s_lastMessageAt = clk 1\<rparr>"
    and m: "m = \<lparr>m_documentId = sessionIdCounter st, m_role = ''system'',
                 m_content = greeting (originalname file),
                 m_id = messageIdCounter st, m_timestamp = clk 2\<rparr>"
  shows "uploadHandler h clk (Some file) st =
     (Upload201 d s,
      st\<lparr>documentIdCounter := documentIdCounter st + 1,
         sessionIdCounter := sessionIdCounter st + 1,
         messageIdCounter := messageIdCounter st + 1,
         documents := documents st @ [(documentIdCounter st, d)],
         sessions := sessions st @ [(sessionIdCounter st, s\<lparr>s_lastMessageAt := clk 3\<rparr>)],
         messages := messages st @ [(messageIdCounter st, m)]\<rparr>)"
proof -
  let ?st1 = "st\<lparr>documentIdCounter := documentIdCounter st + 1,
                 documents := documents st @ [(documentIdCounter st, d)]\<rparr>"
  let ?st2 = "?st1\<lparr>sessionIdCounter := sessionIdCounter st + 1,
                 sessions := sessions st @ [(sessionIdCounter st, s)]\<rparr>"
  have c1: "createDocument
      \<lparr>d_name = originalname file, d_originalName = originalname file,
       d_mimeType = mimetype file, d_size = f_size file, d_content = content\<rparr> (clk 0) st
      = (d, ?st1)"
    by (simp add: createDocument_eq [OF wf] d)
  have wf1: "wf ?st1"
    using wf_createDocument [OF wf, of _ "clk 0"] c1 by (metis snd_conv)
  have c2: "createSession
      \<lparr>s_documentId = d_id d, s_name = sessionName (d_name d)\<rparr> (clk 1) ?st1 = (s, ?st2)"
    unfolding createSession_eq [OF wf1] by (simp add: d s)
  have wf2: "wf ?st2"
    using wf_createSession [OF wf1, of _ "clk 1"] c2 by (metis snd_conv)
  have fresh: "sessionIdCounter st \<notin> set (map fst (sessions st))"
    using wf entries_ok_fresh [of s_id "sessionIdCounter st" "sessions st"]
    by (simp add: wf_def)
  have c3: "createMessage
      \<lparr>m_documentId = s_id s, m_role = ''system'', m_content = greeting (d_name d)\<rparr>
      (clk 2) (clk 3) ?st2 =
      (m, st\<lparr>documentIdCounter := documentIdCounter st + 1,
         sessionIdCounter := sessionIdCounter st + 1,
         messageIdCounter := messageIdCounter st + 1,
         documents := documents st @ [(documentIdCounter st, d)],
         sessions := sessions st @ [(sessionIdCounter st, s\<lparr>s_lastMessageAt := clk 3\<rparr>)],
         messages := messages st @ [(messageIdCounter st, m)]\<rparr>)"
    unfolding createMessage_eq [OF wf2]
    using fresh by (simp add: s d m touch_last)
  show ?thesis
    unfolding uploadHandler_def
    using valid extracted by (simp add: c1 c2 c3 del: One_nat_def)
qed

lemma uploadHandler_atomic:
  assumes wf: "wf st"
  shows "snd (uploadHandler h clk part st) = st \<or>
     (\<exists>d s m. fst (uploadHandler h clk part st) = Upload201 d s
        \<and> documents (snd (uploadHandler h clk part st)) = documents st @ [(d_id d, d)]
        \<and> sessions (snd (uploadHandler h clk part st))
            = sessions st @ [(s_id s, s\<lparr>s_lastMessageAt := clk 3\<rparr>)]
        \<and> messages (snd (uploadHandler h clk part st)) = messages st @ [(m_id m, m)]
        \<and> s_documentId s = d_id d \<and> m_documentId m = s_id s \<and> m_role m = ''system'')"
proof (cases part)
  case None
  then show ?thesis by (simp add: uploadHandler_def)
next
  case (Some upl)
  show ?thesis
  proof (cases "mimetype upl \<in> set validFileTypes")
    case False
    then show ?thesis using Some by (simp add: uploadHandler_def)
  next
    case True
    show ?thesis
    proof (cases "processFile h upl")
      case (Inl err)
      then show ?thesis using Some True by (simp add: uploadHandler_def)
    next
      case (Inr content)
      show ?thesis
      proof (cases "content = []")
        case True
        then show ?thesis
          using Some Inr \<open>mimetype upl \<in> set validFileTypes\<close>
          by (simp add: uploadHandler_def)
      next
        case False
        define d where "d = \<lparr>d_name = originalname upl, d_originalName = originalname upl,
            d_mimeType = mimetype upl, d_size = f_size upl, d_content = content,
            d_id = documentIdCounter st, d_uploadedAt = clk 0\<rparr>"
        define s where "s = \<lparr>s_documentId = documentIdCounter st,
            s_name = sessionName (originalname upl),
            s_id = sessionIdCounter st, s_createdAt = clk 1, s_lastMessageAt = clk 1\<rparr>"
        define m where "m = \<lparr>m_documentId = sessionIdCounter st, m_role = ''system'',
            m_content = greeting (originalname upl),
            m_id = messageIdCounter st, m_timestamp = clk 2\<rparr>"
        note eq = uploadHandler_created [OF wf True Inr False d_def s_def m_def]
        have "fst (uploadHandler h clk part st) = Upload201 d s
          \<and> documents (snd (uploadHandler h clk part st)) = documents st @ [(d_id d, d)]
          \<and> sessions (snd (uploadHandler h clk part st))
              = sessions st @ [(s_id s, s\<lparr>s_lastMessageAt := clk 3\<rparr>)]
          \<and> messages (snd (uploadHandler h clk part st)) = messages st @ [(m_id m, m)]
          \<and> s_documentId s = d_id d \<and> m_documentId m = s_id s \<and> m_role m = ''system''"
          unfolding Some eq by (simp add: d_def s_def m_def)
        then show ?thesis by blast
      qed
    qed
  qed
qed

lemma wf_chatInSession:
  assumes "wf st"
  shows "wf (fst (snd (chatInSession groq clk k d msg s st)))"
proof -
  let ?c1 = "createMessage \<lparr>m_documentId = s_id s, m_role = ''user'', m_content = msg\<rparr>
      (clk k) (clk (k + 1)) st"
  have wf1: "wf (snd ?c1)" using assms by (rule wf_createMessage)
  show ?thesis
  proof (cases "groq (formattedMessages d (getMessages (s_id s) (snd ?c1)))")
    case (Inl err)
    then show ?thesis
      using wf1 by (simp add: chatInSession_def Let_def split_beta)
  next
    case (Inr reply)
    have "wf (snd (createMessage
        \<lparr>m_documentId = s_id s, m_role = ''assistant'', m_content = reply\<rparr>
        (clk (k + 2)) (clk (k + 3)) (snd ?c1)))"
      using wf1 by (rule wf_createMessage)
    then show ?thesis
      using Inr by (simp add: chatInSession_def Let_def split_beta)
  qed
qed

lemma wf_handleChat:
  assumes "wf st"
  shows "wf (fst (snd (handleChat groq clk body st)))"
proof -
  have new: "wf (fst (snd (chatInSession groq clk 1 d msg
      (fst (createSession ins t st)) (snd (createSession ins t st)))))" for d msg ins t
    using assms by (intro wf_chatInSession wf_createSession)
  show ?thesis
    using assms new
    by (simp add: handleChat_def Let_def split_beta wf_chatInSession split: option.split)
qed

lemma wf_uploadHandler:
  assumes "wf st"
  shows "wf (snd (uploadHandler h clk part st))"
proof -
  have "wf (snd (createMessage m t t' (snd (createSession s u (snd (createDocument d v st))))))"
    for m t t' s u d v
    using assms by (intro wf_createMessage wf_createSession wf_createDocument)
  then show ?thesis
    using assms
    by (simp add: uploadHandler_def Let_def split_beta split: option.split sum.split)
qed

lemma wf_postUpload: "wf st \<Longrightarrow> wf (snd (postUpload h clk part st))"
  by (simp add: postUpload_def wf_uploadHandler split: option.split)

section \<open>Chat requests\<close>

lemma handleChat_calls:
  assumes "handleChat groq clk (Some req) st = (r, st', calls)" "calls \<noteq> []"
  obtains d where "getDocument (c_documentId req) st = Some d"
    and "c_sessionId req = None \<or> c_sessionId req = Some 0
         \<or> (\<exists>sid s0. c_sessionId req = Some sid \<and> sid \<noteq> 0 \<and> getSession sid st = Some s0)"
proof -
  from assms obtain d where d: "getDocument (c_documentId req) st = Some d"
    by (auto simp: handleChat_def split: option.splits)
  moreover have "c_sessionId req = None \<or> c_sessionId req = Some 0
         \<or> (\<exists>sid s0. c_sessionId req = Some sid \<and> sid \<noteq> 0 \<and> getSession sid st = Some s0)"
  proof (cases "c_sessionId req")
    case (Some sid)
    show ?thesis
    proof (cases "sid = 0")
      case False
      then show ?thesis
        using assms d Some by (cases "getSession sid st") (auto simp: handleChat_def)
    qed (use Some in simp)
  qed simp
  ultimately show ?thesis using that by blast
qed

text \<open>
  Claim C3. When a call of the Completion Client made by a chat request fails, it is the
  only call of the request (no retry), the response is the error 500 carrying the
  client's message, and the store is left with exactly one more message: the user's
  message, with the request's text. It is filed under the session the request names
  (which exists, and no session is created), or, when the request names none, under the
  one session the request created. That session's history gains exactly this message,
  at its end when the clock does not step back; no other history changes, and the
  assistant messages of the store are as before.
\<close>

theorem handleChat_completion_failure:
  assumes wf: "wf st"
    and run: "handleChat groq clk (Some req) st = (r, st', calls)"
    and called: "p \<in> set calls"
    and failed: "groq p = Inl err"
  shows "calls = [p] \<and> r = Chat500 err
       \<and> (\<exists>u. messages st' = messages st @ [(m_id u, u)]
              \<and> m_id u = messageIdCounter st
              \<and> m_role u = ''user'' \<and> m_content u = c_message req
              \<and> (\<forall>sid. c_sessionId req = Some sid \<and> sid \<noteq> 0 \<longrightarrow>
                    m_documentId u = sid \<and> getSession sid st \<noteq> None
                    \<and> map fst (sessions st') = map fst (sessions st))
              \<and> (c_sessionId req = None \<or> c_sessionId req = Some 0 \<longrightarrow>
                    m_documentId u = sessionIdCounter st
                    \<and> sessionIdCounter st \<notin> set (map fst (sessions st))
                    \<and> map fst (sessions st') = map fst (sessions st) @ [sessionIdCounter st])
              \<and> getSession (m_documentId u) st' \<noteq> None
              \<and> u \<in> set (getMessages (m_documentId u) st')
              \<and> mset (getMessages (m_documentId u) st')
                  = mset (getMessages (m_documentId u) st) + {#u#}
              \<and> (\<forall>j. j \<noteq> m_documentId u \<longrightarrow> getMessages j st' = getMessages j st)
              \<and> (mono clk \<and> stamps_le (clk 0) st \<longrightarrow>
                    getMessages (m_documentId u) st'
                      = getMessages (m_documentId u) st @ [u]))
       \<and> filter (\<lambda>m. m_role m = ''assistant'') (Map_values (messages st'))
           = filter (\<lambda>m. m_role m = ''assistant'') (Map_values (messages st))"
proof -
  have ne: "calls \<noteq> []" using called by auto
  from handleChat_calls [OF run ne] obtain d where
    doc: "getDocument (c_documentId req) st = Some d"
    and which: "c_sessionId req = None \<or> c_sessionId req = Some 0
         \<or> (\<exists>sid s0. c_sessionId req = Some sid \<and> sid \<noteq> 0 \<and> getSession sid st = Some s0)"
    by blast
  have goal: ?thesis
    if eq: "handleChat groq clk (Some req) st =
        (case groq q of Inl e \<Rightarrow> (Chat500 e, st1, [q]) | Inr reply \<Rightarrow> (ok reply, st2 reply, [q]))"
      and ms: "messages st1 = messages st @ [(messageIdCounter st, u)]"
      and u: "m_id u = messageIdCounter st" "m_role u = ''user''" "m_content u = c_message req"
      and present: "getSession (m_documentId u) st1 \<noteq> None"
      and named: "\<forall>sid. c_sessionId req = Some sid \<and> sid \<noteq> 0 \<longrightarrow>
                    m_documentId u = sid \<and> getSession sid st \<noteq> None
                    \<and> map fst (sessions st1) = map fst (sessions st)"
      and created: "c_sessionId req = None \<or> c_sessionId req = Some 0 \<longrightarrow>
                    m_documentId u = sessionIdCounter st
                    \<and> sessionIdCounter st \<notin> set (map fst (sessions st))
                    \<and> map fst (sessions st1) = map fst (sessions st) @ [sessionIdCounter st]"
      and stamp: "mono clk \<and> stamps_le (clk 0) st \<longrightarrow> stamps_le (m_timestamp u) st"
    for q st1 u ok st2
  proof -
    have "calls = [q]"
      using run unfolding eq by (cases "groq q") auto
    with called have q: "q = p" by simp
    have res: "r = Chat500 err" "st' = st1" "calls = [p]"
      using run unfolding eq q failed by auto
    have ms': "messages st1 = messages st @ [(m_id u, u)]"
      using ms u(1) by simp
    have mem: "u \<in> set (getMessages (m_documentId u) st1)"
      by (simp add: getMessages_def ms Map_values_def)
    have count: "mset (getMessages (m_documentId u) st1)
        = mset (getMessages (m_documentId u) st) + {#u#}"
      by (simp add: getMessages_def ms Map_values_def)
    have others: "\<forall>j. j \<noteq> m_documentId u \<longrightarrow> getMessages j st1 = getMessages j st"
      using getMessages_snoc_other [OF ms] by auto
    have last: "mono clk \<and> stamps_le (clk 0) st \<longrightarrow>
        getMessages (m_documentId u) st1 = getMessages (m_documentId u) st @ [u]"
    proof
      assume "mono clk \<and> stamps_le (clk 0) st"
      with stamp have "stamps_le (m_timestamp u) st" by blast
      then have "\<forall>x \<in> set (getMessages (m_documentId u) st). m_timestamp x \<le> m_timestamp u"
        by (rule getMessages_stamps)
      with ms show "getMessages (m_documentId u) st1 = getMessages (m_documentId u) st @ [u]"
        by (intro getMessages_snoc_same) auto
    qed
    have assistants: "filter (\<lambda>m. m_role m = ''assistant'') (Map_values (messages st1))
           = filter (\<lambda>m. m_role m = ''assistant'') (Map_values (messages st))"
      by (simp add: ms Map_values_def u(2))
    have "messages st1 = messages st @ [(m_id u, u)]
              \<and> m_id u = messageIdCounter st
              \<and> m_role u = ''user'' \<and> m_content u = c_message req
              \<and> (\<forall>sid. c_sessionId req = Some sid \<and> sid \<noteq> 0 \<longrightarrow>
                    m_documentId u = sid \<and> getSession sid st \<noteq> None
                    \<and> map fst (sessions st1) = map fst (sessions st))
              \<and> (c_sessionId req = None \<or> c_sessionId req = Some 0 \<longrightarrow>
                    m_documentId u = sessionIdCounter st
                    \<and> sessionIdCounter st \<notin> set (map fst (sessions st))
                    \<and> map fst (sessions st1) = map fst (sessions st) @ [sessionIdCounter st])
              \<and> getSession (m_documentId u) st1 \<noteq> None
              \<and> u \<in> set (getMessages (m_documentId u) st1)
              \<and> mset (getMessages (m_documentId u) st1)
                  = mset (getMessages (m_documentId u) st) + {#u#}
              \<and> (\<forall>j. j \<noteq> m_documentId u \<longrightarrow> getMessages j st1 = getMessages j st)
              \<and> (mono clk \<and> stamps_le (clk 0) st \<longrightarrow>
                    getMessages (m_documentId u) st1
                      = getMessages (m_documentId u) st @ [u])"
      by (intro conjI ms' u named created present mem count others last)
    then have "\<exists>u. messages st1 = messages st @ [(m_id u, u)]
              \<and> m_id u = messageIdCounter st
              \<and> m_role u = ''user'' \<and> m_content u = c_message req
              \<and> (\<forall>sid. c_sessionId req = Some sid \<and> sid \<noteq> 0 \<longrightarrow>
                    m_documentId u = sid \<and> getSession sid st \<noteq> None
                    \<and> map fst (sessions st1) = map fst (sessions st))
              \<and> (c_sessionId req = None \<or> c_sessionId req = Some 0 \<longrightarrow>
                    m_documentId u = sessionIdCounter st
                    \<and> sessionIdCounter st \<notin> set (map fst (sessions st))
                    \<and> map fst (sessions st1) = map fst (sessions st) @ [sessionIdCounter st])
              \<and> getSession (m_documentId u) st1 \<noteq> None
              \<and> u \<in> set (getMessages (m_documentId u) st1)
              \<and> mset (getMessages (m_documentId u) st1)
                  = mset (getMessages (m_documentId u) st) + {#u#}
              \<and> (\<forall>j. j \<noteq> m_documentId u \<longrightarrow> getMessages j st1 = getMessages j st)
              \<and> (mono clk \<and> stamps_le (clk 0) st \<longrightarrow>
                    getMessages (m_documentId u) st1
                      = getMessages (m_documentId u) st @ [u])"
      by (rule exI [where x = u])
    then show ?thesis
      unfolding res using assistants by (intro conjI refl)
  qed
  from which consider
      (named) sid s0 where "c_sessionId req = Some sid" "sid \<noteq> 0" "getSession sid st = Some s0"
    | (unnamed) "c_sessionId req = None \<or> c_sessionId req = Some 0"
    by blast
  then show ?thesis
  proof cases
    case named
    note sid = named
    define u where "u = \<lparr>m_documentId = sid, m_role = ''user'', m_content = c_message req,
        m_id = messageIdCounter st, m_timestamp = clk 0\<rparr>"
    define st1 where "st1 = st\<lparr>messageIdCounter := messageIdCounter st + 1,
        messages := messages st @ [(messageIdCounter st, u)],
        sessions := Map_set sid (s0\<lparr>s_lastMessageAt := clk 1\<rparr>) (sessions st)\<rparr>"
    note eq = handleChat_existing_eq [OF wf doc sid(1,3) u_def st1_def refl, of groq]
    have g: "Map_get (sessions st) sid = Some s0"
      using sid(3) by (simp add: getSession_def)
    have ms: "messages st1 = messages st @ [(messageIdCounter st, u)]"
      by (simp add: st1_def)
    have u: "m_id u = messageIdCounter st" "m_role u = ''user''" "m_content u = c_message req"
      by (simp_all add: u_def)
    have present: "getSession (m_documentId u) st1 \<noteq> None"
      by (simp add: u_def st1_def getSession_def Map_get_set)
    have named: "\<forall>sid. c_sessionId req = Some sid \<and> sid \<noteq> 0 \<longrightarrow>
                    m_documentId u = sid \<and> getSession sid st \<noteq> None
                    \<and> map fst (sessions st1) = map fst (sessions st)"
      using sid by (simp add: u_def st1_def Map_set_keys_present [OF g])
    have created: "c_sessionId req = None \<or> c_sessionId req = Some 0 \<longrightarrow>
                    m_documentId u = sessionIdCounter st
                    \<and> sessionIdCounter st \<notin> set (map fst (sessions st))
                    \<and> map fst (sessions st1) = map fst (sessions st) @ [sessionIdCounter st]"
      using sid(1,2) by simp
    have stamp: "mono clk \<and> stamps_le (clk 0) st \<longrightarrow> stamps_le (m_timestamp u) st"
      by (simp add: u_def)
    show ?thesis
      by (rule goal [OF eq ms u present named created stamp])
  next
    case unnamed
    note new = unnamed
    have fresh: "sessionIdCounter st \<notin> set (map fst (sessions st))"
      using wf entries_ok_fresh [of s_id "sessionIdCounter st" "sessions st"]
      by (simp add: wf_def)
    define s where "s = \<lparr>s_documentId = c_documentId req, s_name = sessionName (d_name d),
        s_id = sessionIdCounter st, s_createdAt = clk 0, s_lastMessageAt = clk 0\<rparr>"
    define u where "u = \<lparr>m_documentId = sessionIdCounter st, m_role = ''user'',
        m_content = c_message req, m_id = messageIdCounter st, m_timestamp = clk 1\<rparr>"
    define st1 where "st1 = st\<lparr>sessionIdCounter := sessionIdCounter st + 1,
        messageIdCounter := messageIdCounter st + 1,
        messages := messages st @ [(messageIdCounter st, u)],
        sessions := sessions st @ [(sessionIdCounter st, s\<lparr>s_lastMessageAt := clk 2\<rparr>)]\<rparr>"
    note eq = handleChat_new_eq [OF wf doc new s_def u_def st1_def refl, of groq]
    have ms: "messages st1 = messages st @ [(messageIdCounter st, u)]"
      by (simp add: st1_def)
    have u: "m_id u = messageIdCounter st" "m_role u = ''user''" "m_content u = c_message req"
      by (simp_all add: u_def)
    have present: "getSession (m_documentId u) st1 \<noteq> None"
      using fresh by (simp add: u_def st1_def getSession_def Map_get_last)
    have named: "\<forall>sid. c_sessionId req = Some sid \<and> sid \<noteq> 0 \<longrightarrow>
                    m_documentId u = sid \<and> getSession sid st \<noteq> None
                    \<and> map fst (sessions st1) = map fst (sessions st)"
      using new by auto
    have created: "c_sessionId req = None \<or> c_sessionId req = Some 0 \<longrightarrow>
                    m_documentId u = sessionIdCounter st
                    \<and> sessionIdCounter st \<notin> set (map fst (sessions st))
                    \<and> map fst (sessions st1) = map fst (sessions st) @ [sessionIdCounter st]"
      using fresh by (simp add: u_def st1_def)
    have stamp: "mono clk \<and> stamps_le (clk 0) st \<longrightarrow> stamps_le (m_timestamp u) st"
    proof
      assume a: "mono clk \<and> stamps_le (clk 0) st"
      then have "clk 0 \<le> clk 1" by (simp add: monoD)
      with a show "stamps_le (m_timestamp u) st"
        by (auto simp: u_def intro: stamps_le_mono)
    qed
    show ?thesis
      by (rule goal [OF eq ms u present named created stamp])
  qed
qed

lemma createMessage_session:
  assumes "wf st" "getSession j st = Some s0" "m_documentId ins = j"
  shows "getSession j (snd (createMessage ins t t' st)) = Some (s0\<lparr>s_lastMessageAt := t'\<rparr>)"
  using assms(2,3) by (simp add: createMessage_eq [OF assms(1)] getSession_def touch_get)




section \<open>Uploading a text file\<close>

lemma processFile_txt:
  assumes "mimetype upl = ''text/plain''" "fs_writeFile_ok h" "fs_readFile_ok h" "fs_unlink_ok h"
  shows "processFile h upl = Inr (utf8 h (buffer upl))"
  using assms by (simp add: processFile_def)

lemma postUpload_atomic:
  assumes wf: "wf st"
  shows "snd (postUpload h clk part st) = st \<or>
     (\<exists>d s m. fst (postUpload h clk part st) = Upload201 d s
        \<and> documents (snd (postUpload h clk part st)) = documents st @ [(d_id d, d)]
        \<and> sessions (snd (postUpload h clk part st))
            = sessions st @ [(s_id s, s\<lparr>s_lastMessageAt := clk 3\<rparr>)]
        \<and> messages (snd (postUpload h clk part st)) = messages st @ [(m_id m, m)]
        \<and> s_documentId s = d_id d \<and> m_documentId m = s_id s \<and> m_role m = ''system'')"
proof (cases part)
  case None
  then show ?thesis
    using uploadHandler_atomic [OF wf, of h clk None] by (simp add: postUpload_def)
next
  case (Some upl)
  show ?thesis
  proof (cases "fileFilter h upl \<and> f_size upl < fileSizeLimit")
    case True
    then have "postUpload h clk part st = uploadHandler h clk part st"
      using Some by (simp add: postUpload_def)
    then show ?thesis
      using uploadHandler_atomic [OF wf, of h clk part] by simp
  next
    case False
    then show ?thesis using Some by (auto simp: postUpload_def)
  qed
qed

text \<open>
  Claim C5, amended. Take an uploaded file with extension \<open>.txt\<close> and type
  \<open>text/plain\<close>, smaller than the size limit, on a host whose temporary-file operations
  succeed. If its decoded text is not empty, the upload answers 201 with a document
  whose size is the file's size and whose content is the decoded text, and the store
  gains exactly that document, one session for it and one system message in that
  session. If its decoded text is empty, the upload answers 400 ``Failed to process
  file'' and the store is unchanged. For every upload the store is either unchanged or
  has gained a document, its session and its system message together.
\<close>

theorem upload_txt_creates_document_session_message:
  assumes wf: "wf st"
    and plain: "fileFilter h upl" "mimetype upl = ''text/plain''" "f_size upl < fileSizeLimit"
    and fs: "fs_writeFile_ok h" "fs_readFile_ok h" "fs_unlink_ok h"
  shows "(utf8 h (buffer upl) \<noteq> [] \<longrightarrow>
          (\<exists>d s m st'. postUpload h clk (Some upl) st = (Upload201 d s, st')
            \<and> d_size d = f_size upl \<and> d_content d = utf8 h (buffer upl)
            \<and> d_name d = originalname upl \<and> d_id d = documentIdCounter st
            \<and> documents st' = documents st @ [(d_id d, d)]
            \<and> s_documentId s = d_id d \<and> s_id s = sessionIdCounter st
            \<and> sessions st' = sessions st @ [(s_id s, s\<lparr>s_lastMessageAt := clk 3\<rparr>)]
            \<and> m_documentId m = s_id s \<and> m_role m = ''system''
            \<and> m_id m = messageIdCounter st
            \<and> messages st' = messages st @ [(m_id m, m)]))
       \<and> (utf8 h (buffer upl) = [] \<longrightarrow>
            postUpload h clk (Some upl) st = (Upload400 ''Failed to process file'', st))
       \<and> (\<forall>part. snd (postUpload h clk part st) = st \<or>
            (\<exists>d s m. fst (postUpload h clk part st) = Upload201 d s
               \<and> documents (snd (postUpload h clk part st)) = documents st @ [(d_id d, d)]
               \<and> sessions (snd (postUpload h clk part st))
                   = sessions st @ [(s_id s, s\<lparr>s_lastMessageAt := clk 3\<rparr>)]
               \<and> messages (snd (postUpload h clk part st)) = messages st @ [(m_id m, m)]
               \<and> s_documentId s = d_id d \<and> m_documentId m = s_id s
               \<and> m_role m = ''system''))"
proof -
  define d where "d = \<lparr>d_name = originalname upl, d_originalName = originalname upl,
      d_mimeType = mimetype upl, d_size = f_size upl, d_content = utf8 h (buffer upl),
      d_id = documentIdCounter st, d_uploadedAt = clk 0\<rparr>"
  define s where "s = \<lparr>s_documentId = documentIdCounter st,
      s_name = sessionName (originalname upl),
      s_id = sessionIdCounter st, s_createdAt = clk 1, s_lastMessageAt = clk 1\<rparr>"
  define m where "m = \<lparr>m_documentId = sessionIdCounter st, m_role = ''system'',
      m_content = greeting (originalname upl),
      m_id = messageIdCounter st, m_timestamp = clk 2\<rparr>"
  have valid: "mimetype upl \<in> set validFileTypes"
    using plain(2) by (simp add: validFileTypes_def)
  note extracted = processFile_txt [OF plain(2) fs]
  have handler: "postUpload h clk (Some upl) st = uploadHandler h clk (Some upl) st"
    using plain(1,3) by (simp add: postUpload_def)
  have full: "\<exists>d s m st'. postUpload h clk (Some upl) st = (Upload201 d s, st')
            \<and> d_size d = f_size upl \<and> d_content d = utf8 h (buffer upl)
            \<and> d_name d = originalname upl \<and> d_id d = documentIdCounter st
            \<and> documents st' = documents st @ [(d_id d, d)]
            \<and> s_documentId s = d_id d \<and> s_id s = sessionIdCounter st
            \<and> sessions st' = sessions st @ [(s_id s, s\<lparr>s_lastMessageAt := clk 3\<rparr>)]
            \<and> m_documentId m = s_id s \<and> m_role m = ''system''
            \<and> m_id m = messageIdCounter st
            \<and> messages st' = messages st @ [(m_id m, m)]"
    if nonempty: "utf8 h (buffer upl) \<noteq> []"
  proof -
    note created = uploadHandler_created [OF wf valid extracted nonempty d_def s_def m_def]
    have "postUpload h clk (Some upl) st =
      (Upload201 d s,
       st\<lparr>documentIdCounter := documentIdCounter st + 1,
          sessionIdCounter := sessionIdCounter st + 1,
          messageIdCounter := messageIdCounter st + 1,
          documents := documents st @ [(documentIdCounter st, d)],
          sessions := sessions st @ [(sessionIdCounter st, s\<lparr>s_lastMessageAt := clk 3\<rparr>)],
          messages := messages st @ [(messageIdCounter st, m)]\<rparr>)"
      using handler created by simp
    then have "\<exists>st'. postUpload h clk (Some upl) st = (Upload201 d s, st')
            \<and> d_size d = f_size upl \<and> d_content d = utf8 h (buffer upl)
            \<and> d_name d = originalname upl \<and> d_id d = documentIdCounter st
            \<and> documents st' = documents st @ [(d_id d, d)]
            \<and> s_documentId s = d_id d \<and> s_id s = sessionIdCounter st
            \<and> sessions st' = sessions st @ [(s_id s, s\<lparr>s_lastMessageAt := clk 3\<rparr>)]
            \<and> m_documentId m = s_id s \<and> m_role m = ''system''
            \<and> m_id m = messageIdCounter st
            \<and> messages st' = messages st @ [(m_id m, m)]"
      by (simp add: d_def s_def m_def)
    then show ?thesis by blast
  qed
  have refused: "postUpload h clk (Some upl) st = (Upload400 ''Failed to process file'', st)"
    if "utf8 h (buffer upl) = []"
    unfolding handler using valid extracted that by (simp add: uploadHandler_def)
  show ?thesis
    by (intro conjI impI allI full refused postUpload_atomic [OF wf])
qed

text \<open>
  Claim C5 as stated fails for the empty file: \<open>empty.txt\<close> passes the filter, its
  decoded text is the empty string, the guard \<open>if (!content)\<close> answers 400 and nothing
  is created.
\<close>

theorem upload_empty_txt_rejected:
  "fileFilter ascii_host empty_txt \<and> mimetype empty_txt = ''text/plain''
   \<and> f_size empty_txt = length (buffer empty_txt) \<and> f_size empty_txt < fileSizeLimit
   \<and> postUpload ascii_host upload_clock (Some empty_txt) constructor
       = (Upload400 ''Failed to process file'', constructor)"
proof -
  have f: "fileFilter ascii_host empty_txt"
    by (simp add: fileFilter_def ascii_host_def empty_txt_def)
  have p: "processFile ascii_host empty_txt = Inr []"
    by (simp add: processFile_def) (simp add: ascii_host_def empty_txt_def)
  have v: "mimetype empty_txt \<in> set validFileTypes"
    by (simp add: empty_txt_def validFileTypes_def)
  show ?thesis
    using f p v
    by (simp add: postUpload_def uploadHandler_def) (simp add: empty_txt_def fileSizeLimit_def)
qed

lemma uploaded_eq:
  "postUpload ascii_host upload_clock (Some notes_txt) constructor =
     (Upload201
        \<lparr>d_name = ''notes.txt'', d_originalName = ''notes.txt'', d_mimeType = ''text/plain'',
         d_size = 11, d_content = ''Hello world'', d_id = 1, d_uploadedAt = 1000\<rparr>
        \<lparr>s_documentId = 1, s_name = ''Chat about notes.txt'', s_id = 1,
         s_createdAt = 1001, s_lastMessageAt = 1001\<rparr>,
      \<lparr>users = [],
       documents = [(1, \<lparr>d_name = ''notes.txt'', d_originalName = ''notes.txt'',
                        d_mimeType = ''text/plain'', d_size = 11,
                        d_content = ''Hello world'', d_id = 1, d_uploadedAt = 1000\<rparr>)],
       sessions = [(1, \<lparr>s_documentId = 1, s_name = ''Chat about notes.txt'', s_id = 1,
                       s_createdAt = 1001, s_lastMessageAt = 1003\<rparr>)],
       messages = [(1, \<lparr>m_documentId = 1, m_role = ''system'',
                       m_content = greeting ''notes.txt'', m_id = 1,
                       m_timestamp = 1002\<rparr>)],
       userIdCounter = 1, documentIdCounter = 2, sessionIdCounter = 2,
       messageIdCounter = 2\<rparr>)"
proof -
  have v: "mimetype notes_txt \<in> set validFileTypes"
    by (simp add: notes_txt_def validFileTypes_def)
  have n: "''Hello world'' \<noteq> ([] :: string)" by simp
  have "postUpload ascii_host upload_clock (Some notes_txt) constructor
      = uploadHandler ascii_host upload_clock (Some notes_txt) constructor"
    using filter_notes by (simp add: postUpload_def) (simp add: notes_txt_def fileSizeLimit_def)
  then show ?thesis
    unfolding uploadHandler_created
      [where clk = upload_clock, OF wf_constructor v processFile_notes n refl refl refl]
    by (simp add: constructor_def notes_txt_def upload_clock_def sessionName_def)
qed

lemma uploaded_store:
  "uploaded =
      \<lparr>users = [],
       documents = [(1, \<lparr>d_name = ''notes.txt'', d_originalName = ''notes.txt'',
                        d_mimeType = ''text/plain'', d_size = 11,
                        d_content = ''Hello world'', d_id = 1, d_uploadedAt = 1000\<rparr>)],
       sessions = [(1, \<lparr>s_documentId = 1, s_name = ''Chat about notes.txt'', s_id = 1,
                       s_createdAt = 1001, s_lastMessageAt = 1003\<rparr>)],
       messages = [(1, \<lparr>m_documentId = 1, m_role = ''system'',
                       m_content = greeting ''notes.txt'', m_id = 1,
                       m_timestamp = 1002\<rparr>)],
       userIdCounter = 1, documentIdCounter = 2, sessionIdCounter = 2,
       messageIdCounter = 2\<rparr>"
  by (simp add: uploaded_def uploaded_eq)

lemma wf_uploaded: "wf uploaded"
  by (simp add: uploaded_store wf_def entries_ok_def)

lemma stamps_uploaded: "stamps_le (chat_clock 0) uploaded"
  by (simp add: uploaded_store stamps_le_def Map_values_def chat_clock_def)

lemma mono_chat_clock: "mono chat_clock"
  by (simp add: mono_def chat_clock_def)

section \<open>The session id of a chat request\<close>

lemma uploaded_document:
  "getDocument 1 uploaded =
     Some \<lparr>d_name = ''notes.txt'', d_originalName = ''notes.txt'', d_mimeType = ''text/plain'',
           d_size = 11, d_content = ''Hello world'', d_id = 1, d_uploadedAt = 1000\<rparr>"
  by (simp add: uploaded_store getDocument_def Map_get_def)

lemma uploaded_session:
  "getSession 1 uploaded =
     Some \<lparr>s_documentId = 1, s_name = ''Chat about notes.txt'', s_id = 1,
           s_createdAt = 1001, s_lastMessageAt = 1003\<rparr>"
  by (simp add: uploaded_store getSession_def Map_get_def)

lemma uploaded_history:
  "getMessages 1 uploaded =
     [\<lparr>m_documentId = 1, m_role = ''system'', m_content = greeting ''notes.txt'',
       m_id = 1, m_timestamp = 1002\<rparr>]"
  by (simp add: uploaded_store getMessages_def Map_values_def)

lemma chat_existing_response:
  "fst (handleChat canned_groq chat_clock (Some (ask 1 (Some 1))) uploaded) =
     Chat200
       \<lparr>s_documentId = 1, s_name = ''Chat about notes.txt'', s_id = 1,
        s_createdAt = 1001, s_lastMessageAt = 1003\<rparr>
       \<lparr>m_documentId = 1, m_role = ''user'', m_content = ''What is this?'',
        m_id = 2, m_timestamp = 2000\<rparr>
       \<lparr>m_documentId = 1, m_role = ''assistant'', m_content = ''It is a greeting.'',
        m_id = 3, m_timestamp = 2002\<rparr>"
proof -
  have d: "getDocument (c_documentId (ask 1 (Some 1))) uploaded =
     Some \<lparr>d_name = ''notes.txt'', d_originalName = ''notes.txt'', d_mimeType = ''text/plain'',
           d_size = 11, d_content = ''Hello world'', d_id = 1, d_uploadedAt = 1000\<rparr>"
    using uploaded_document by (simp add: ask_def)
  have s: "c_sessionId (ask 1 (Some 1)) = Some 1" by (simp add: ask_def)
  show ?thesis
    unfolding handleChat_existing_eq [OF wf_uploaded d s uploaded_session refl refl refl]
    by (simp add: canned_groq_def ask_def chat_clock_def) (simp add: uploaded_store)
qed

lemma chat_new_response:
  assumes "sessionId = None \<or> sessionId = Some 0"
  shows "fst (handleChat canned_groq chat_clock (Some (ask 1 sessionId)) uploaded) =
     Chat200
       \<lparr>s_documentId = 1, s_name = ''Chat about notes.txt'', s_id = 2,
        s_createdAt = 2000, s_lastMessageAt = 2000\<rparr>
       \<lparr>m_documentId = 2, m_role = ''user'', m_content = ''What is this?'',
        m_id = 2, m_timestamp = 2001\<rparr>
       \<lparr>m_documentId = 2, m_role = ''assistant'', m_content = ''It is a greeting.'',
        m_id = 3, m_timestamp = 2003\<rparr>"
    and "map fst (sessions (fst (snd
           (handleChat canned_groq chat_clock (Some (ask 1 sessionId)) uploaded)))) = [1, 2]"
proof -
  have d: "getDocument (c_documentId (ask 1 sessionId)) uploaded =
     Some \<lparr>d_name = ''notes.txt'', d_originalName = ''notes.txt'', d_mimeType = ''text/plain'',
           d_size = 11, d_content = ''Hello world'', d_id = 1, d_uploadedAt = 1000\<rparr>"
    using uploaded_document by (simp add: ask_def)
  have s: "c_sessionId (ask 1 sessionId) = None \<or> c_sessionId (ask 1 sessionId) = Some 0"
    using assms by (simp add: ask_def)
  note eq = handleChat_new_eq [OF wf_uploaded d s refl refl refl refl]
  show "fst (handleChat canned_groq chat_clock (Some (ask 1 sessionId)) uploaded) =
     Chat200
       \<lparr>s_documentId = 1, s_name = ''Chat about notes.txt'', s_id = 2,
        s_createdAt = 2000, s_lastMessageAt = 2000\<rparr>
       \<lparr>m_documentId = 2, m_role = ''user'', m_content = ''What is this?'',
        m_id = 2, m_timestamp = 2001\<rparr>
       \<lparr>m_documentId = 2, m_role = ''assistant'', m_content = ''It is a greeting.'',
        m_id = 3, m_timestamp = 2003\<rparr>"
    unfolding eq
    by (simp add: canned_groq_def ask_def chat_clock_def sessionName_def)
      (simp add: uploaded_store)
  show "map fst (sessions (fst (snd
           (handleChat canned_groq chat_clock (Some (ask 1 sessionId)) uploaded)))) = [1, 2]"
    unfolding eq
    by (simp add: canned_groq_def) (simp add: uploaded_store)
qed

text \<open>
  Claim C2 at \<open>sessionId = 0\<close>. No session has the id 0, yet the request is not
  answered 404: \<open>if (sessionId)\<close> is false for 0, a new session (id 2) is created and
  the chat succeeds. Any other absent id, such as 7, is answered 404.
\<close>

theorem chat_sessionId_zero_creates_session:
  "getSession 0 uploaded = None
   \<and> fst (handleChat canned_groq chat_clock (Some (ask 1 (Some 0))) uploaded) =
       Chat200
         \<lparr>s_documentId = 1, s_name = ''Chat about notes.txt'', s_id = 2,
          s_createdAt = 2000, s_lastMessageAt = 2000\<rparr>
         \<lparr>m_documentId = 2, m_role = ''user'', m_content = ''What is this?'',
          m_id = 2, m_timestamp = 2001\<rparr>
         \<lparr>m_documentId = 2, m_role = ''assistant'', m_content = ''It is a greeting.'',
          m_id = 3, m_timestamp = 2003\<rparr>
   \<and> map fst (sessions uploaded) = [1]
   \<and> map fst (sessions (fst (snd
         (handleChat canned_groq chat_clock (Some (ask 1 (Some 0))) uploaded)))) = [1, 2]
   \<and> handleChat canned_groq chat_clock (Some (ask 1 (Some 7))) uploaded
       = (Chat404 ''Session not found'', uploaded, [])"
proof -
  have "getSession 0 uploaded = None" "map fst (sessions uploaded) = [1]"
    by (simp_all add: uploaded_store getSession_def Map_get_def)
  moreover have "handleChat canned_groq chat_clock (Some (ask 1 (Some 7))) uploaded
       = (Chat404 ''Session not found'', uploaded, [])"
    using uploaded_document
    by (simp add: handleChat_def ask_def) (simp add: uploaded_store getSession_def Map_get_def)
  ultimately show ?thesis
    using chat_new_response [of "Some 0"] by simp
qed

lemma handleChat_sessionId_zero:
  "c_sessionId req = Some 0
   \<Longrightarrow> handleChat groq clk (Some req) st
       = handleChat groq clk (Some (req\<lparr>c_sessionId := None\<rparr>)) st"
  by (simp add: handleChat_def split: option.split)

lemma handleChat_session_lookup:
  assumes "getDocument (c_documentId req) st = Some d" "c_sessionId req = Some sid" "sid \<noteq> 0"
    and "getSession sid st = None"
  shows "handleChat groq clk (Some req) st = (Chat404 ''Session not found'', st, [])"
  using assms by (simp add: handleChat_def)

section \<open>The scenario, evaluated\<close>

theorem updateSessionName_frame_witness:
  "fst (updateSessionName 1 ''Notes'' uploaded) =
     Some \<lparr>s_documentId = 1, s_name = ''Notes'', s_id = 1,
           s_createdAt = 1001, s_lastMessageAt = 1003\<rparr>
   \<and> getSession 1 (snd (updateSessionName 1 ''Notes'' uploaded)) =
     Some \<lparr>s_documentId = 1, s_name = ''Notes'', s_id = 1,
           s_createdAt = 1001, s_lastMessageAt = 1003\<rparr>
   \<and> map fst (sessions (snd (updateSessionName 1 ''Notes'' uploaded))) = [1]
   \<and> updateSessionName 5 ''Notes'' uploaded = (None, uploaded)"
proof -
  have absent: "getSession 5 uploaded = None"
    by (simp add: uploaded_store getSession_def Map_get_def)
  have keys: "map fst (sessions uploaded) = [1]"
    by (simp add: uploaded_store)
  show ?thesis
    using updateSessionName_frame [of 1 uploaded "''Notes''"]
      updateSessionName_frame [of 5 uploaded "''Notes''"]
      uploaded_session absent keys
    by simp
qed

theorem identifiers_unique_increasing_never_reused_witness:
  "assigned Document (fst (run
      [CreateDocument \<lparr>d_name = ''a'', d_originalName = ''a'', d_mimeType = ''text/plain'',
         d_size = 1, d_content = ''x''\<rparr> 1,
       DeleteDocument 1,
       CreateDocument \<lparr>d_name = ''b'', d_originalName = ''b'', d_mimeType = ''text/plain'',
         d_size = 1, d_content = ''y''\<rparr> 2] constructor)) = [1, 2]
   \<and> sorted_wrt (<) (assigned Document (fst (run
      [CreateDocument \<lparr>d_name = ''a'', d_originalName = ''a'', d_mimeType = ''text/plain'',
         d_size = 1, d_content = ''x''\<rparr> 1,
       DeleteDocument 1,
       CreateDocument \<lparr>d_name = ''b'', d_originalName = ''b'', d_mimeType = ''text/plain'',
         d_size = 1, d_content = ''y''\<rparr> 2] constructor)))
   \<and> distinct (assigned Document (fst (run
      [CreateDocument \<lparr>d_name = ''a'', d_originalName = ''a'', d_mimeType = ''text/plain'',
         d_size = 1, d_content = ''x''\<rparr> 1,
       DeleteDocument 1,
       CreateDocument \<lparr>d_name = ''b'', d_originalName = ''b'', d_mimeType = ''text/plain'',
         d_size = 1, d_content = ''y''\<rparr> 2] constructor)))
   \<and> keys_of Document (snd (run
      [CreateDocument \<lparr>d_name = ''a'', d_originalName = ''a'', d_mimeType = ''text/plain'',
         d_size = 1, d_content = ''x''\<rparr> 1,
       DeleteDocument 1,
       CreateDocument \<lparr>d_name = ''b'', d_originalName = ''b'', d_mimeType = ''text/plain'',
         d_size = 1, d_content = ''y''\<rparr> 2] constructor)) = [2]"
proof -
  let ?ops = "[CreateDocument \<lparr>d_name = ''a'', d_originalName = ''a'',
         d_mimeType = ''text/plain'', d_size = 1, d_content = ''x''\<rparr> 1,
       DeleteDocument 1,
       CreateDocument \<lparr>d_name = ''b'', d_originalName = ''b'', d_mimeType = ''text/plain'',
         d_size = 1, d_content = ''y''\<rparr> 2]"
  have n: "length (assigned Document (fst (run ?ops constructor))) = 2"
    and k: "keys_of Document (snd (run ?ops constructor)) = [2]"
    by (simp_all add: assigned_def createDocument_def deleteDocument_def Map_set_def
        Map_delete_def constructor_def Let_def)
  have "[1 .. 2] = [1, 2::int]"
    by (simp add: upto_rec1)
  then show ?thesis
    using identifiers_unique_increasing_never_reused [of Document ?ops] n k
    by simp
qed

theorem getMessages_sorted_createMessage_lastMessageAt_witness:
  "sorted (map m_timestamp (getMessages 1 uploaded))
   \<and> getSession 1 (snd (createMessage
          \<lparr>m_documentId = 1, m_role = ''user'', m_content = ''hi''\<rparr> 20 21
          (snd (run [CreateSession \<lparr>s_documentId = 1, s_name = ''s''\<rparr> 10] constructor))))
       = Some \<lparr>s_documentId = 1, s_name = ''s'', s_id = 1, s_createdAt = 10,
               s_lastMessageAt = 21\<rparr>
   \<and> sessions (snd (createMessage
          \<lparr>m_documentId = 9, m_role = ''user'', m_content = ''hi''\<rparr> 20 21
          (snd (run [CreateSession \<lparr>s_documentId = 1, s_name = ''s''\<rparr> 10] constructor))))
       = sessions (snd (run [CreateSession \<lparr>s_documentId = 1, s_name = ''s''\<rparr> 10]
           constructor))"
proof -
  let ?xs = "[CreateSession \<lparr>s_documentId = 1, s_name = ''s''\<rparr> 10]"
  have before: "getSession 1 (snd (run ?xs constructor))
      = Some \<lparr>s_documentId = 1, s_name = ''s'', s_id = 1, s_createdAt = 10,
              s_lastMessageAt = 10\<rparr>"
    and absent: "getSession 9 (snd (run ?xs constructor)) = None"
    by (simp_all add: createSession_def constructor_def Let_def getSession_def Map_get_def
        Map_set_def)
  have clock: "sorted (clock_of (?xs @ [CreateMessage ins 20 21]))" for ins
    by (simp add: clock_of_def)
  show ?thesis
    using getMessages_sorted_createMessage_lastMessageAt
        [where sid = 1 and st = uploaded and xs = ?xs and t = 20 and t' = 21
           and ins = "\<lparr>m_documentId = 1, m_role = ''user'', m_content = ''hi''\<rparr>"]
      getMessages_sorted_createMessage_lastMessageAt
        [where sid = 1 and st = uploaded and xs = ?xs and t = 20 and t' = 21
           and ins = "\<lparr>m_documentId = 9, m_role = ''user'', m_content = ''hi''\<rparr>"]
      before absent clock
    by simp
qed

text \<open>
  Claim C4 as stated fails when the clock steps back: in the store left by the upload,
  session 1 has \<open>lastMessageAt = 1003\<close>; a \<open>createMessage\<close> for this session whose
  clock readings are 900 and 800 stores \<open>lastMessageAt = 800\<close>, which is earlier.
  \<open>createMessage\<close> writes the reading without comparing it with the previous value.
\<close>

theorem createMessage_lastMessageAt_earlier:
  "getSession 1 uploaded =
     Some \<lparr>s_documentId = 1, s_name = ''Chat about notes.txt'', s_id = 1,
           s_createdAt = 1001, s_lastMessageAt = 1003\<rparr>
   \<and> getSession 1 (snd (createMessage
         \<lparr>m_documentId = 1, m_role = ''user'', m_content = ''hi''\<rparr> 900 800 uploaded)) =
     Some \<lparr>s_documentId = 1, s_name = ''Chat about notes.txt'', s_id = 1,
           s_createdAt = 1001, s_lastMessageAt = 800\<rparr>
   \<and> (800 :: int) < 1003"
proof -
  have "getSession 1 (snd (createMessage
         \<lparr>m_documentId = 1, m_role = ''user'', m_content = ''hi''\<rparr> 900 800 uploaded)) =
     Some (\<lparr>s_documentId = 1, s_name = ''Chat about notes.txt'', s_id = 1,
           s_createdAt = 1001, s_lastMessageAt = 1003\<rparr>\<lparr>s_lastMessageAt := 800\<rparr>)"
    using wf_uploaded uploaded_session by (rule createMessage_session) simp
  then show ?thesis
    using uploaded_session by simp
qed

theorem upload_txt_creates_document_session_message_witness:
  "postUpload ascii_host upload_clock (Some notes_txt) constructor =
     (Upload201
        \<lparr>d_name = ''notes.txt'', d_originalName = ''notes.txt'', d_mimeType = ''text/plain'',
         d_size = 11, d_content = ''Hello world'', d_id = 1, d_uploadedAt = 1000\<rparr>
        \<lparr>s_documentId = 1, s_name = ''Chat about notes.txt'', s_id = 1,
         s_createdAt = 1001, s_lastMessageAt = 1001\<rparr>,
      uploaded)
   \<and> f_size notes_txt = 11
   \<and> map (\<lambda>m. m_role (snd m)) (messages uploaded) = [''system'']
   \<and> map fst (sessions uploaded) = [1]
   \<and> postUpload ascii_host upload_clock (Some empty_txt) uploaded
       = (Upload400 ''Failed to process file'', uploaded)"
proof -
  have fs: "fs_writeFile_ok ascii_host" "fs_readFile_ok ascii_host" "fs_unlink_ok ascii_host"
    by (simp_all add: ascii_host_def)
  have plain: "mimetype notes_txt = ''text/plain''" "f_size notes_txt < fileSizeLimit"
    by (simp_all add: notes_txt_def fileSizeLimit_def)
  have nonempty: "utf8 ascii_host (buffer notes_txt) \<noteq> []"
    by (simp add: utf8_notes)
  have filter_empty: "fileFilter ascii_host empty_txt"
    by (simp add: fileFilter_def ascii_host_def empty_txt_def)
  have plain_empty: "mimetype empty_txt = ''text/plain''" "f_size empty_txt < fileSizeLimit"
    by (simp_all add: empty_txt_def fileSizeLimit_def)
  have empty: "utf8 ascii_host (buffer empty_txt) = []"
    by (simp add: ascii_host_def empty_txt_def)
  show ?thesis
    using upload_txt_creates_document_session_message
        [OF wf_constructor filter_notes plain fs, where clk = upload_clock]
      upload_txt_creates_document_session_message
        [OF wf_uploaded filter_empty plain_empty fs, where clk = upload_clock]
      nonempty empty
    by (simp add: uploaded_eq uploaded_store)
qed


theorem handleChat_appends_user_then_assistant_witness:
  "getMessages 1 (fst (snd (handleChat canned_groq chat_clock (Some (ask 1 (Some 1))) uploaded)))
     = getMessages 1 uploaded @
       [\<lparr>m_documentId = 1, m_role = ''user'', m_content = ''What is this?'',
         m_id = 2, m_timestamp = 2000\<rparr>,
        \<lparr>m_documentId = 1, m_role = ''assistant'', m_content = ''It is a greeting.'',
         m_id = 3, m_timestamp = 2002\<rparr>]
   \<and> map fst (sessions
         (fst (snd (handleChat canned_groq chat_clock (Some (ask 1 (Some 1))) uploaded))))
       = [1]
   \<and> getMessages 2 (fst (snd (handleChat canned_groq chat_clock (Some (ask 1 None)) uploaded)))
     = [\<lparr>m_documentId = 2, m_role = ''user'', m_content = ''What is this?'',
         m_id = 2, m_timestamp = 2001\<rparr>,
        \<lparr>m_documentId = 2, m_role = ''assistant'', m_content = ''It is a greeting.'',
         m_id = 3, m_timestamp = 2003\<rparr>]
   \<and> map fst (sessions
         (fst (snd (handleChat canned_groq chat_clock (Some (ask 1 None)) uploaded))))
       = [1, 2]"
proof -
  let ?old = "handleChat canned_groq chat_clock (Some (ask 1 (Some 1))) uploaded"
  let ?new = "handleChat canned_groq chat_clock (Some (ask 1 None)) uploaded"
  have old: "?old =
     (Chat200
       \<lparr>s_documentId = 1, s_name = ''Chat about notes.txt'', s_id = 1,
        s_createdAt = 1001, s_lastMessageAt = 1003\<rparr>
       \<lparr>m_documentId = 1, m_role = ''user'', m_content = ''What is this?'',
        m_id = 2, m_timestamp = 2000\<rparr>
       \<lparr>m_documentId = 1, m_role = ''assistant'', m_content = ''It is a greeting.'',
        m_id = 3, m_timestamp = 2002\<rparr>, fst (snd ?old), snd (snd ?old))"
    using chat_existing_response by (metis prod.collapse)
  have new: "?new =
     (Chat200
       \<lparr>s_documentId = 1, s_name = ''Chat about notes.txt'', s_id = 2,
        s_createdAt = 2000, s_lastMessageAt = 2000\<rparr>
       \<lparr>m_documentId = 2, m_role = ''user'', m_content = ''What is this?'',
        m_id = 2, m_timestamp = 2001\<rparr>
       \<lparr>m_documentId = 2, m_role = ''assistant'', m_content = ''It is a greeting.'',
        m_id = 3, m_timestamp = 2003\<rparr>, fst (snd ?new), snd (snd ?new))"
    using chat_new_response(1) [of None] by (metis prod.collapse)
  have keys: "map fst (sessions uploaded) = [1]" "sessionIdCounter uploaded = 2"
    and empty: "getMessages 2 uploaded = []"
    by (simp_all add: uploaded_store getMessages_def Map_values_def)
  have req: "c_sessionId (ask 1 (Some 1)) = Some 1" "c_sessionId (ask 1 None) = None"
    by (simp_all add: ask_def)
  show ?thesis
    using handleChat_appends_user_then_assistant [OF wf_uploaded old]
      handleChat_appends_user_then_assistant [OF wf_uploaded new]
      mono_chat_clock stamps_uploaded uploaded_session keys empty req
    by simp
qed

theorem handleChat_completion_failure_witness:
  "fst (handleChat failing_groq chat_clock (Some (ask 1 (Some 1))) uploaded)
     = Chat500 ''GROQ_API_KEY environment variable is not set''
   \<and> length (snd (snd (handleChat failing_groq chat_clock (Some (ask 1 (Some 1))) uploaded)))
       = 1
   \<and> map (\<lambda>m. (m_documentId (snd m), m_role (snd m)))
        (messages (fst (snd
           (handleChat failing_groq chat_clock (Some (ask 1 (Some 1))) uploaded))))
       = [(1, ''system''), (1, ''user'')]
   \<and> map fst (sessions (fst (snd
           (handleChat failing_groq chat_clock (Some (ask 1 (Some 1))) uploaded)))) = [1]
   \<and> fst (handleChat failing_groq chat_clock (Some (ask 1 None)) uploaded)
     = Chat500 ''GROQ_API_KEY environment variable is not set''
   \<and> map (\<lambda>m. (m_documentId (snd m), m_role (snd m)))
        (messages (fst (snd
           (handleChat failing_groq chat_clock (Some (ask 1 None)) uploaded))))
       = [(1, ''system''), (2, ''user'')]
   \<and> map fst (sessions (fst (snd
           (handleChat failing_groq chat_clock (Some (ask 1 None)) uploaded)))) = [1, 2]"
proof -
  let ?old = "handleChat failing_groq chat_clock (Some (ask 1 (Some 1))) uploaded"
  let ?new = "handleChat failing_groq chat_clock (Some (ask 1 None)) uploaded"
  have d: "getDocument (c_documentId (ask 1 sessionId)) uploaded =
     Some \<lparr>d_name = ''notes.txt'', d_originalName = ''notes.txt'', d_mimeType = ''text/plain'',
           d_size = 11, d_content = ''Hello world'', d_id = 1, d_uploadedAt = 1000\<rparr>"
    for sessionId
    using uploaded_document by (simp add: ask_def)
  have s: "c_sessionId (ask 1 (Some 1)) = Some 1" by (simp add: ask_def)
  have n: "c_sessionId (ask 1 None) = None \<or> c_sessionId (ask 1 None) = Some 0"
    by (simp add: ask_def)
  have "\<exists>p. snd (snd ?old) = [p]"
    unfolding handleChat_existing_eq [OF wf_uploaded d s uploaded_session refl refl refl]
    by (simp add: failing_groq_def)
  then obtain p where p: "snd (snd ?old) = [p]" ..
  have "\<exists>q. snd (snd ?new) = [q]"
    unfolding handleChat_new_eq [OF wf_uploaded d n refl refl refl refl]
    by (simp add: failing_groq_def)
  then obtain q where q: "snd (snd ?new) = [q]" ..
  have old: "?old = (fst ?old, fst (snd ?old), snd (snd ?old))" by simp
  have new: "?new = (fst ?new, fst (snd ?new), snd (snd ?new))" by simp
  have called: "p \<in> set (snd (snd ?old))" "q \<in> set (snd (snd ?new))"
    by (simp_all add: p q)
  have failed: "failing_groq x = Inl ''GROQ_API_KEY environment variable is not set''" for x
    by (simp add: failing_groq_def)
  have before: "map (\<lambda>m. (m_documentId (snd m), m_role (snd m))) (messages uploaded)
      = [(1, ''system'')]"
    "map fst (sessions uploaded) = [1]" "sessionIdCounter uploaded = 2"
    by (simp_all add: uploaded_store)
  have req: "c_sessionId (ask 1 (Some 1)) = Some 1" "c_sessionId (ask 1 None) = None"
    by (simp_all add: ask_def)
  have nz: "(1::int) \<noteq> 0" by simp
  note a = handleChat_completion_failure [OF wf_uploaded old called(1) failed]
  note b = handleChat_completion_failure [OF wf_uploaded new called(2) failed]
  from a [THEN conjunct2, THEN conjunct2, THEN conjunct1] req(1) nz
  obtain u where u: "messages (fst (snd ?old)) = messages uploaded @ [(m_id u, u)]"
    "m_role u = ''user''" "m_documentId u = 1"
    "map fst (sessions (fst (snd ?old))) = map fst (sessions uploaded)"
    by blast
  from b [THEN conjunct2, THEN conjunct2, THEN conjunct1] req(2)
  obtain v where v: "messages (fst (snd ?new)) = messages uploaded @ [(m_id v, v)]"
    "m_role v = ''user''" "m_documentId v = sessionIdCounter uploaded"
    "map fst (sessions (fst (snd ?new)))
       = map fst (sessions uploaded) @ [sessionIdCounter uploaded]"
    by blast
  show ?thesis
    using a [THEN conjunct2, THEN conjunct1] b [THEN conjunct2, THEN conjunct1]
    by (simp add: p u v before)
qed





end
